theory Spec2Isabelle
  imports Main
begin

section \<open>Strings\<close>

text \<open>
  Source strings are modelled as lists of 8-bit characters, the code units below 256.
  Every string the generator changes the case of, or matches against \<open>\w\<close>, \<open>[A-Z]\<close>,
  \<open>[a-z]\<close> or \<open>\d\<close>, is the image of an identifier or keyword token, hence ASCII, so case
  mapping is modelled on ASCII letters and leaves every other character alone. Strings
  and arrays have no bound on their length; the one resource of the JavaScript engine
  that the model bounds is the depth of the call stack, in the recursion of
  \<open>resolveMixins\<close>.
\<close>

definition nl :: string where
  "nl = [CHR 0x0A]"

definition sq :: string where
  "sq = [CHR 0x27]"

definition dq :: string where
  "dq = [CHR 0x22]"

definition isUpper :: "char \<Rightarrow> bool" where
  "isUpper c = (65 \<le> (of_char c :: nat) \<and> (of_char c :: nat) \<le> 90)"

definition isLower :: "char \<Rightarrow> bool" where
  "isLower c = (97 \<le> (of_char c :: nat) \<and> (of_char c :: nat) \<le> 122)"

definition isDigit :: "char \<Rightarrow> bool" where
  "isDigit c = (48 \<le> (of_char c :: nat) \<and> (of_char c :: nat) \<le> 57)"

text \<open>The class \<open>\w\<close> of a JavaScript regular expression: \<open>[A-Za-z0-9_]\<close>.\<close>

definition isWord :: "char \<Rightarrow> bool" where
  "isWord c = (isUpper c \<or> isLower c \<or> isDigit c \<or> c = CHR ''_'')"

definition toLowerChar :: "char \<Rightarrow> char" where
  "toLowerChar c = (if isUpper c then char_of ((of_char c :: nat) + 32) else c)"

definition toUpperChar :: "char \<Rightarrow> char" where
  "toUpperChar c = (if isLower c then char_of ((of_char c :: nat) - 32) else c)"

definition toLowerCase :: "string \<Rightarrow> string" where
  "toLowerCase s = map toLowerChar s"

definition toUpperCase :: "string \<Rightarrow> string" where
  "toUpperCase s = map toUpperChar s"

text \<open>\<open>Array.prototype.join\<close>.\<close>

fun join :: "string \<Rightarrow> string list \<Rightarrow> string" where
  "join sep [] = []"
| "join sep [x] = x"
| "join sep (x # y # ys) = x @ sep @ join sep (y # ys)"

text \<open>\<open>String.prototype.startsWith\<close> and \<open>String.prototype.includes\<close>.\<close>

fun startsWith :: "string \<Rightarrow> string \<Rightarrow> bool" where
  "startsWith s [] = True"
| "startsWith [] (p # ps) = False"
| "startsWith (c # cs) (p # ps) = (c = p \<and> startsWith cs ps)"

fun includesStr :: "string \<Rightarrow> string \<Rightarrow> bool" where
  "includesStr [] p = (p = [])"
| "includesStr (c # cs) p = (startsWith (c # cs) p \<or> includesStr cs p)"

text \<open>
  \<open>String.prototype.replace\<close> with a global regular expression: the input is scanned from
  the left; where the expression matches, the replacement is emitted and the scan goes on
  behind the match; elsewhere the character is copied. The matcher returns the replacement
  and the rest of the input behind the match. No expression of the generator matches the
  empty string; for such a match JavaScript emits the replacement, copies one character and
  goes on, which is the second branch.
\<close>

function replaceAll :: "(string \<Rightarrow> (string \<times> string) option) \<Rightarrow> string \<Rightarrow> string" where
  "replaceAll m [] = []"
| "replaceAll m (c # cs) =
     (case m (c # cs) of
        None \<Rightarrow> c # replaceAll m cs
      | Some (out, rest) \<Rightarrow>
          if length rest < length (c # cs) then out @ replaceAll m rest
          else out @ c # replaceAll m cs)"
  by pat_completeness auto
termination
  by (relation "measure (\<lambda>(m, s). length s)") auto

section \<open>Utility functions of the generator\<close>

text \<open>
  The first replacement of \<open>toSnakeCase\<close>, \<open>/([A-Z]+)([A-Z][a-z])/g\<close> by \<open>$1_$2\<close>. At a
  position the greedy \<open>[A-Z]+\<close> takes the whole run of capitals and gives back one: the
  expression matches exactly when the run has at least two capitals and a lower-case
  letter follows it.
\<close>

definition matchCaps :: "string \<Rightarrow> (string \<times> string) option" where
  "matchCaps s =
     (let run = takeWhile isUpper s; rest = dropWhile isUpper s in
      case rest of
        [] \<Rightarrow> None
      | l # rest' \<Rightarrow>
          if 2 \<le> length run \<and> isLower l
          then Some (butlast run @ ''_'' @ [last run, l], rest')
          else None)"

text \<open>The second replacement, \<open>/([a-z\d])([A-Z])/g\<close> by \<open>$1_$2\<close>.\<close>

definition matchCamel :: "string \<Rightarrow> (string \<times> string) option" where
  "matchCamel s =
     (case s of
        a # b # rest \<Rightarrow>
          if (isLower a \<or> isDigit a) \<and> isUpper b then Some ([a] @ ''_'' @ [b], rest) else None
      | _ \<Rightarrow> None)"

definition toSnakeCase :: "string \<Rightarrow> string" where
  "toSnakeCase str = toLowerCase (replaceAll matchCamel (replaceAll matchCaps str))"

text \<open>
  \<open>/(\w+)::(\w+)/g\<close> by \<open>'$2'::$1\<close>: a run of word characters, two colons, a run of word
  characters. A colon is no word character, so the first group is the whole run.
\<close>

definition matchCast :: "string \<Rightarrow> (string \<times> string) option" where
  "matchCast s =
     (let g1 = takeWhile isWord s; r1 = dropWhile isWord s;
          g2 = takeWhile isWord (drop 2 r1); r2 = dropWhile isWord (drop 2 r1) in
      if g1 \<noteq> [] \<and> startsWith r1 ''::'' \<and> g2 \<noteq> []
      then Some (sq @ g2 @ sq @ ''::'' @ g1, r2)
      else None)"

definition formatTypeCast :: "string \<Rightarrow> string" where
  "formatTypeCast v = (if \<not> includesStr v ''::'' then v else replaceAll matchCast v)"

text \<open>The test \<open>/^'[^']*'::\w+$/\<close> of \<open>formatEnumDefault\<close>.\<close>

definition alreadyFormatted :: "string \<Rightarrow> bool" where
  "alreadyFormatted v =
     (case v of
        [] \<Rightarrow> False
      | q # rest \<Rightarrow>
          q = CHR 0x27 \<and>
          (let after = dropWhile (\<lambda>c. c \<noteq> CHR 0x27) rest in
           startsWith after (sq @ ''::'') \<and> drop 3 after \<noteq> [] \<and> list_all isWord (drop 3 after)))"

definition formatEnumDefault :: "string \<Rightarrow> string \<Rightarrow> string" where
  "formatEnumDefault v enumType =
     (if v = ''NULL'' then v
      else if alreadyFormatted v then v
      else if includesStr v ''::'' then formatTypeCast v
      else sq @ v @ sq @ ''::'' @ enumType)"

section \<open>The abstract syntax tree\<close>

text \<open>
  The declarations of \<open>types.ts\<close>, without the source locations and the \<open>conceptScope\<close>
  fields, which the generator never reads. An optional field is an \<open>option\<close>. An
  \<open>IndexDef\<close> and a \<open>PerInstanceIndex\<close> have their columns, \<open>unique\<close> and \<open>using\<close>, and no
  \<open>where\<close> clause.
\<close>

datatype ConstraintType = PrimaryKey | NotNull | Unique | Default | Reference | Check | OnDelete

record ColumnConstraint =
  c_type :: ConstraintType
  c_value :: "string option"
  c_table :: "string option"
  c_column :: "string option"
  c_action :: "string option"

record ColumnDef =
  col_name :: string
  col_dataType :: string
  col_constraints :: "ColumnConstraint list"

record IndexDef =
  idx_columns :: "string list"
  idx_unique :: "bool option"
  idx_using :: "string option"

record CheckDef =
  chk_expression :: string

record TriggerDef =
  trg_name :: string
  trg_timing :: string
  trg_event :: string
  trg_forEach :: string
  trg_executeFunction :: string

datatype SchemaBodyItem =
  IColumnDef ColumnDef
| IIndexDef IndexDef
| ICheckDef CheckDef
| ITriggerDef TriggerDef

record SchemaDecl =
  sd_name :: string
  sd_mixins :: "string list"
  sd_members :: "SchemaBodyItem list"

record EnumDecl =
  en_name :: string
  en_values :: "string list"

datatype ConceptMember = MSchemaDecl SchemaDecl | MEnumDecl EnumDecl

record ConceptDecl =
  cd_name :: string
  cd_typeParams :: "string list"
  cd_members :: "ConceptMember list"

text \<open>\<open>InstantiationTarget\<close> and \<open>TypeArg\<close> have the same two fields.\<close>

record TypeArg =
  ta_tableName :: string
  ta_alias :: "string option"

record Instantiation =
  in_targets :: "TypeArg list"
  in_conceptName :: string
  in_typeArgs :: "TypeArg list"

record PerInstanceIndex =
  pi_tableName :: string
  pi_columns :: "string list"
  pi_unique :: "bool option"
  pi_using :: "string option"

record ExtensionDecl =
  ext_name :: string

record FunctionDecl =
  fn_name :: string
  fn_returnType :: string
  fn_body :: string

datatype TopLevelDeclaration =
  TExtensionDecl ExtensionDecl
| TFunctionDecl FunctionDecl
| TSchemaDecl SchemaDecl
| TConceptDecl ConceptDecl
| TEnumDecl EnumDecl
| TInstantiation Instantiation
| TPerInstanceIndex PerInstanceIndex

type_synonym GSQLProgram = "TopLevelDeclaration list"

section \<open>The generator context\<close>

text \<open>
  A JavaScript \<open>Map\<close> keeps its keys in insertion order: it is an association list in
  which \<open>set\<close> overwrites the value of a key already there, in place, and appends a new
  key at the end.
\<close>

fun mapSet :: "string \<Rightarrow> 'v \<Rightarrow> (string \<times> 'v) list \<Rightarrow> (string \<times> 'v) list" where
  "mapSet k v [] = [(k, v)]"
| "mapSet k v (p # ps) = (if fst p = k then (k, v) # ps else p # mapSet k v ps)"

definition mapGet :: "(string \<times> 'v) list \<Rightarrow> string \<Rightarrow> 'v option" where
  "mapGet m k = map_of m k"

definition mapHas :: "(string \<times> 'v) list \<Rightarrow> string \<Rightarrow> bool" where
  "mapHas m k = (map_of m k \<noteq> None)"

record GeneratorContext =
  concepts :: "(string \<times> ConceptDecl) list"
  schemas :: "(string \<times> SchemaDecl) list"
  enums :: "(string \<times> EnumDecl) list"
  tableToSchema :: "(string \<times> string) list"
  templateSubs :: "(string \<times> string) list"
  enumSql :: "string list"
  tableSql :: "string list"
  indexSql :: "string list"
  triggerSql :: "string list"
  extensionSql :: "string list"
  functionSql :: "string list"
  perInstanceIndexSql :: "string list"
  generatedEnums :: "string set"
  generatedTables :: "string set"

definition createContext :: GeneratorContext where
  "createContext =
     \<lparr> concepts = [], schemas = [], enums = [], tableToSchema = [], templateSubs = [],
       enumSql = [], tableSql = [], indexSql = [], triggerSql = [], extensionSql = [],
       functionSql = [], perInstanceIndexSql = [], generatedEnums = {}, generatedTables = {} \<rparr>"

fun collectDefinitions :: "GSQLProgram \<Rightarrow> GeneratorContext \<Rightarrow> GeneratorContext" where
  "collectDefinitions [] ctx = ctx"
| "collectDefinitions (TConceptDecl d # ds) ctx =
     collectDefinitions ds (ctx\<lparr>concepts := mapSet (cd_name d) d (concepts ctx)\<rparr>)"
| "collectDefinitions (TSchemaDecl d # ds) ctx =
     collectDefinitions ds (ctx\<lparr>schemas := mapSet (sd_name d) d (schemas ctx)\<rparr>)"
| "collectDefinitions (TEnumDecl d # ds) ctx =
     collectDefinitions ds (ctx\<lparr>enums := mapSet (en_name d) d (enums ctx)\<rparr>)"
| "collectDefinitions (_ # ds) ctx = collectDefinitions ds ctx"

section \<open>Template expansion\<close>

text \<open>
  \<open>name.match(/^\{([^}]+)\}(.*)$/)\<close>: an opening brace, the characters up to the first
  closing brace (at least one), and a suffix without line terminators (the dot does not
  match them). The result is the parameter and the suffix.
\<close>

definition templateMatch :: "string \<Rightarrow> (string \<times> string) option" where
  "templateMatch name =
     (case name of
        [] \<Rightarrow> None
      | b # rest \<Rightarrow>
          if b \<noteq> CHR ''{'' then None
          else
            (let param = takeWhile (\<lambda>c. c \<noteq> CHR ''}'') rest;
                 after = dropWhile (\<lambda>c. c \<noteq> CHR ''}'') rest in
             case after of
               [] \<Rightarrow> None
             | _ # suffix \<Rightarrow>
                 if param \<noteq> [] \<and> list_all (\<lambda>c. c \<noteq> CHR 0x0A \<and> c \<noteq> CHR 0x0D) suffix
                 then Some (param, suffix)
                 else None))"

definition expandTemplate :: "string \<Rightarrow> GeneratorContext \<Rightarrow> string" where
  "expandTemplate name ctx =
     (case templateMatch name of
        Some (param, suffix) \<Rightarrow>
          (case mapGet (templateSubs ctx) param of
             Some replacement \<Rightarrow> replacement
           | None \<Rightarrow> toSnakeCase param) @ suffix
      | None \<Rightarrow> name)"

text \<open>
  The replacement text of \<open>String.prototype.replace\<close>, for an expression without groups:
  \<open>$$\<close> stands for a dollar sign, \<open>$&\<close> for the matched text, \<open>$`\<close> for the text before the
  match and \<open>$'\<close> for the text behind it; a dollar sign followed by anything else, a digit
  included, stands for itself.
\<close>

fun getSubstitution :: "string \<Rightarrow> string \<Rightarrow> string \<Rightarrow> string \<Rightarrow> string" where
  "getSubstitution matched before after [] = []"
| "getSubstitution matched before after [c] = [c]"
| "getSubstitution matched before after (c # d # r) =
     (if c = CHR ''$'' then
        (if d = CHR ''$'' then CHR ''$'' # getSubstitution matched before after r
         else if d = CHR ''&'' then matched @ getSubstitution matched before after r
         else if d = CHR 0x60 then before @ getSubstitution matched before after r
         else if d = CHR 0x27 then after @ getSubstitution matched before after r
         else c # getSubstitution matched before after (d # r))
      else c # getSubstitution matched before after (d # r))"

text \<open>
  \<open>escapeRegExp\<close> makes the parameter a literal, so the expression built in
  \<open>expandCheckExpression\<close> matches the text \<open>{param}\<close> and nothing else.
  \<open>replaceBraced param v before s\<close> is the global replacement in a text of which \<open>before\<close>
  has been scanned and \<open>s\<close> is left.
\<close>

function replaceBraced :: "string \<Rightarrow> string \<Rightarrow> string \<Rightarrow> string \<Rightarrow> string" where
  "replaceBraced param v before [] = []"
| "replaceBraced param v before (c # cs) =
     (if startsWith (c # cs) (CHR ''{'' # param @ ''}'') then
        getSubstitution (CHR ''{'' # param @ ''}'') before (drop (Suc (length param)) cs) v @
        replaceBraced param v (before @ CHR ''{'' # param @ ''}'') (drop (Suc (length param)) cs)
      else c # replaceBraced param v (before @ [c]) cs)"
  by pat_completeness auto
termination
  by (relation "measure (\<lambda>(param, v, before, s). length s)") auto

fun expandSubs :: "(string \<times> string) list \<Rightarrow> string \<Rightarrow> string" where
  "expandSubs [] result = result"
| "expandSubs ((param, v) # subs) result = expandSubs subs (replaceBraced param v [] result)"

definition expandCheckExpression :: "string \<Rightarrow> GeneratorContext \<Rightarrow> string" where
  "expandCheckExpression expr ctx = formatTypeCast (expandSubs (templateSubs ctx) expr)"

section \<open>SQL generation helpers\<close>

definition generateEnumSql :: "EnumDecl \<Rightarrow> GeneratorContext \<Rightarrow> GeneratorContext" where
  "generateEnumSql enumDecl ctx =
     (let name = en_name enumDecl in
      if name \<in> generatedEnums ctx then ctx
      else
        (let vals = join '', '' (map (\<lambda>v. sq @ v @ sq) (en_values enumDecl)) in
         ctx\<lparr> generatedEnums := insert name (generatedEnums ctx),
              enums := mapSet name enumDecl (enums ctx),
              enumSql := enumSql ctx @
                [''DO $$ BEGIN'' @ nl @ ''    CREATE TYPE '' @ name @ '' AS ENUM ('' @ vals @ '');'' @ nl @
                 ''EXCEPTION'' @ nl @ ''    WHEN duplicate_object THEN null;'' @ nl @ ''END $$;''] \<rparr>))"

text \<open>
  One turn of the loop over the constraints of a column: the state is the pair of
  \<open>parts\<close> and \<open>postConstraints\<close>.
\<close>

definition constraintSql ::
  "ColumnDef \<Rightarrow> GeneratorContext \<Rightarrow> (string list \<times> string list) \<Rightarrow> ColumnConstraint \<Rightarrow>
   (string list \<times> string list)" where
  "constraintSql col ctx acc c =
     (case acc of (parts, postConstraints) \<Rightarrow>
      (case c_type c of
         PrimaryKey \<Rightarrow> (parts @ [''PRIMARY KEY''], postConstraints)
       | NotNull \<Rightarrow> (parts @ [''NOT NULL''], postConstraints)
       | Unique \<Rightarrow> (parts @ [''UNIQUE''], postConstraints)
       | Default \<Rightarrow>
           (let defaultValue = (case c_value c of None \<Rightarrow> ''NULL'' | Some v \<Rightarrow> v);
                enumTypeName = toLowerCase (col_dataType col);
                defaultValue' =
                  (if mapHas (enums ctx) enumTypeName
                   then formatEnumDefault defaultValue enumTypeName
                   else defaultValue)
            in (parts @ [''DEFAULT '' @ defaultValue'], postConstraints))
       | Reference \<Rightarrow>
           (let tn = (case c_table c of None \<Rightarrow> [] | Some t \<Rightarrow> t);
                tn' = (case mapGet (tableToSchema ctx) tn of None \<Rightarrow> tn | Some t \<Rightarrow> t)
            in (parts,
                postConstraints @
                  [''REFERENCES '' @ tn' @ ''('' @
                   (case c_column c of None \<Rightarrow> ''id'' | Some k \<Rightarrow> k) @ '')'']))
       | Check \<Rightarrow>
           (parts @
              [''CHECK ('' @
               expandCheckExpression (case c_value c of None \<Rightarrow> [] | Some v \<Rightarrow> v) ctx @ '')''],
            postConstraints)
       | OnDelete \<Rightarrow>
           (parts,
            postConstraints @
              [''ON DELETE '' @ (case c_action c of None \<Rightarrow> ''NO ACTION'' | Some a \<Rightarrow> a)])))"

definition generateColumnSql :: "ColumnDef \<Rightarrow> GeneratorContext \<Rightarrow> string" where
  "generateColumnSql col ctx =
     (let name = expandTemplate (col_name col) ctx;
          dataType = toUpperCase (col_dataType col)
      in case foldl (constraintSql col ctx) ([''    '' @ name @ '' '' @ dataType], [])
                (col_constraints col) of
           (parts, postConstraints) \<Rightarrow> join '' '' (parts @ postConstraints))"

text \<open>
  \<open>generateIndexSql\<close> serves the indexes of a schema and the per-instance indexes. An
  empty \<open>using\<close> is falsy.
\<close>

definition generateIndexSql :: "string \<Rightarrow> IndexDef \<Rightarrow> GeneratorContext \<Rightarrow> string" where
  "generateIndexSql tn index ctx =
     (let expandedColumns = map (\<lambda>c. expandTemplate c ctx) (idx_columns index);
          cols = join '', '' expandedColumns;
          columnNames = join ''_'' expandedColumns;
          indexName = ''idx_'' @ tn @ ''_'' @ columnNames;
          uniq = (if idx_unique index = Some True then ''UNIQUE '' else []);
          using = (case idx_using index of
                     None \<Rightarrow> []
                   | Some u \<Rightarrow> if u \<noteq> [] then ''USING '' @ u @ '' '' else [])
      in ''CREATE '' @ uniq @ ''INDEX '' @ indexName @ '' ON '' @ tn @ '' '' @ using @
         ''('' @ cols @ '');'')"

definition generateCheckSql :: "string \<Rightarrow> CheckDef \<Rightarrow> GeneratorContext \<Rightarrow> string" where
  "generateCheckSql tn chk ctx =
     ''    CHECK ('' @ expandCheckExpression (chk_expression chk) ctx @ '')''"

definition generateTriggerSql :: "string \<Rightarrow> TriggerDef \<Rightarrow> GeneratorContext \<Rightarrow> string" where
  "generateTriggerSql tn trigger ctx =
     (let timing = toUpperCase (trg_timing trigger);
          event = toUpperCase (trg_event trigger);
          forEach = (if trg_forEach trigger = ''row'' then ''FOR EACH ROW''
                     else ''FOR EACH STATEMENT'')
      in ''CREATE TRIGGER '' @ trg_name trigger @ ''_'' @ tn @ nl @
         ''    '' @ timing @ '' '' @ event @ '' ON '' @ tn @ nl @
         ''    '' @ forEach @ '' EXECUTE FUNCTION '' @ trg_executeFunction trigger @ ''();'')"

section \<open>Schema resolution\<close>

record ResolvedSchema =
  rs_tableName :: string
  rs_columns :: "ColumnDef list"
  rs_indexes :: "IndexDef list"
  rs_checks :: "CheckDef list"
  rs_triggers :: "TriggerDef list"

text \<open>
  \<open>resolveMixins\<close> calls itself for every mixin that names a collected schema, and the code
  has nothing that bounds the depth of these calls: the engine does. Every call takes a
  frame of the call stack, and a call for which no frame is left throws a \<open>RangeError\<close>,
  which nothing in the generator catches. The first argument of \<open>resolveMixins\<close> is the
  number of its frames that the stack still holds when it is called, and the value \<open>None\<close>
  is the thrown \<open>RangeError\<close>. \<open>resolveMixinsLoop stack ctx names items\<close> is the \<open>for\<close> loop
  of a call over the mixin names still to visit, with the items pushed so far and \<open>stack\<close>
  frames left for the calls it makes.
\<close>

fun resolveMixinsLoop ::
  "nat \<Rightarrow> GeneratorContext \<Rightarrow> string list \<Rightarrow> SchemaBodyItem list \<Rightarrow>
   SchemaBodyItem list option" where
  "resolveMixinsLoop stack ctx [] items = Some items"
| "resolveMixinsLoop stack ctx (mixinName # rest) items =
     (case mapGet (schemas ctx) mixinName of
        None \<Rightarrow> resolveMixinsLoop stack ctx rest items
      | Some mixin \<Rightarrow>
          (case stack of
             0 \<Rightarrow> None
           | Suc below \<Rightarrow>
               Option.bind (resolveMixinsLoop below ctx (sd_mixins mixin) [])
                 (\<lambda>sub. resolveMixinsLoop stack ctx rest (items @ (sub @ sd_members mixin)))))"

definition resolveMixins ::
  "nat \<Rightarrow> SchemaDecl \<Rightarrow> GeneratorContext \<Rightarrow> SchemaBodyItem list option" where
  "resolveMixins stack schema ctx =
     (case stack of
        0 \<Rightarrow> None
      | Suc below \<Rightarrow>
          Option.bind (resolveMixinsLoop below ctx (sd_mixins schema) [])
            (\<lambda>items. Some (items @ sd_members schema)))"

fun columnsOf :: "SchemaBodyItem list \<Rightarrow> ColumnDef list" where
  "columnsOf [] = []"
| "columnsOf (IColumnDef c # xs) = c # columnsOf xs"
| "columnsOf (_ # xs) = columnsOf xs"

fun indexesOf :: "SchemaBodyItem list \<Rightarrow> IndexDef list" where
  "indexesOf [] = []"
| "indexesOf (IIndexDef c # xs) = c # indexesOf xs"
| "indexesOf (_ # xs) = indexesOf xs"

fun checksOf :: "SchemaBodyItem list \<Rightarrow> CheckDef list" where
  "checksOf [] = []"
| "checksOf (ICheckDef c # xs) = c # checksOf xs"
| "checksOf (_ # xs) = checksOf xs"

fun triggersOf :: "SchemaBodyItem list \<Rightarrow> TriggerDef list" where
  "triggersOf [] = []"
| "triggersOf (ITriggerDef c # xs) = c # triggersOf xs"
| "triggersOf (_ # xs) = triggersOf xs"

definition resolveSchema ::
  "nat \<Rightarrow> SchemaDecl \<Rightarrow> string \<Rightarrow> GeneratorContext \<Rightarrow> ResolvedSchema option" where
  "resolveSchema stack schema tn ctx =
     map_option
       (\<lambda>allItems. \<lparr> rs_tableName = tn, rs_columns = columnsOf allItems,
                      rs_indexes = indexesOf allItems, rs_checks = checksOf allItems,
                      rs_triggers = triggersOf allItems \<rparr>)
       (resolveMixins stack schema ctx)"

section \<open>Table generation\<close>

definition generateTableSql :: "ResolvedSchema \<Rightarrow> GeneratorContext \<Rightarrow> GeneratorContext" where
  "generateTableSql resolved ctx =
     (if rs_tableName resolved \<in> generatedTables ctx then ctx
      else
        (let ctx1 = ctx\<lparr>generatedTables := insert (rs_tableName resolved) (generatedTables ctx)\<rparr>;
             columnsSql = map (\<lambda>c. generateColumnSql c ctx1) (rs_columns resolved);
             checksSql = map (\<lambda>c. generateCheckSql (rs_tableName resolved) c ctx1)
                           (rs_checks resolved);
             tableBody = join ('','' @ nl) (columnsSql @ checksSql)
         in ctx1\<lparr> tableSql := tableSql ctx1 @
                     [''CREATE TABLE '' @ rs_tableName resolved @ '' ('' @ nl @ tableBody @ nl @ '');''],
                  indexSql := indexSql ctx1 @
                     map (\<lambda>i. generateIndexSql (rs_tableName resolved) i ctx1) (rs_indexes resolved),
                  triggerSql := triggerSql ctx1 @
                     map (\<lambda>t. generateTriggerSql (rs_tableName resolved) t ctx1)
                       (rs_triggers resolved) \<rparr>))"

section \<open>Declaration processing\<close>

definition processExtension :: "ExtensionDecl \<Rightarrow> GeneratorContext \<Rightarrow> GeneratorContext" where
  "processExtension decl ctx =
     ctx\<lparr>extensionSql := extensionSql ctx @
            [''CREATE EXTENSION IF NOT EXISTS '' @ dq @ ext_name decl @ dq @ '';'']\<rparr>"

definition processFunction :: "FunctionDecl \<Rightarrow> GeneratorContext \<Rightarrow> GeneratorContext" where
  "processFunction decl ctx =
     ctx\<lparr>functionSql := functionSql ctx @
            [''CREATE OR REPLACE FUNCTION '' @ fn_name decl @ ''()'' @ nl @
             ''RETURNS TRIGGER AS $$'' @ nl @ ''BEGIN'' @ nl @ ''    '' @ fn_body decl @ nl @
             ''END;'' @ nl @ ''$$ LANGUAGE plpgsql;'']\<rparr>"

definition processEnum :: "EnumDecl \<Rightarrow> GeneratorContext \<Rightarrow> GeneratorContext" where
  "processEnum decl ctx = generateEnumSql decl ctx"

definition processStandaloneSchema :: "SchemaDecl \<Rightarrow> GeneratorContext \<Rightarrow> GeneratorContext" where
  "processStandaloneSchema decl ctx = ctx\<lparr>schemas := mapSet (sd_name decl) decl (schemas ctx)\<rparr>"

text \<open>
  The first loop of the concept path of \<open>processInstantiation\<close>, over the type parameters
  that have a type argument at their index. An empty parameter name is falsy and skipped.
\<close>

fun bindTypeParams :: "(string \<times> TypeArg) list \<Rightarrow> GeneratorContext \<Rightarrow> GeneratorContext" where
  "bindTypeParams [] ctx = ctx"
| "bindTypeParams ((param, arg) # rest) ctx =
     bindTypeParams rest
       (if param \<noteq> [] then
          ctx\<lparr> templateSubs :=
                 mapSet param (case ta_alias arg of Some a \<Rightarrow> a | None \<Rightarrow> toSnakeCase param)
                   (templateSubs ctx),
               tableToSchema := mapSet param (ta_tableName arg) (tableToSchema ctx) \<rparr>
        else ctx)"

text \<open>
  The second loop, over the targets that have a member schema of the concept at their
  index; the state is the local \<open>schemaToTable\<close> map and the context. An empty alias is
  falsy.
\<close>

fun bindTargets ::
  "(TypeArg \<times> SchemaDecl) list \<Rightarrow> (string \<times> TypeArg) list \<times> GeneratorContext \<Rightarrow>
   (string \<times> TypeArg) list \<times> GeneratorContext" where
  "bindTargets [] st = st"
| "bindTargets ((target, schema) # rest) (schemaToTable, ctx) =
     bindTargets rest
       (mapSet (sd_name schema) target schemaToTable,
        ctx\<lparr> tableToSchema := mapSet (sd_name schema) (ta_tableName target) (tableToSchema ctx),
             templateSubs :=
               mapSet (sd_name schema)
                 (case ta_alias target of
                    Some a \<Rightarrow> if a \<noteq> [] then a else toSnakeCase (sd_name schema)
                  | None \<Rightarrow> toSnakeCase (sd_name schema))
                 (templateSubs ctx) \<rparr>)"

fun schemasOf :: "ConceptMember list \<Rightarrow> SchemaDecl list" where
  "schemasOf [] = []"
| "schemasOf (MSchemaDecl s # ms) = s # schemasOf ms"
| "schemasOf (_ # ms) = schemasOf ms"

fun enumsOf :: "ConceptMember list \<Rightarrow> EnumDecl list" where
  "enumsOf [] = []"
| "enumsOf (MEnumDecl e # ms) = e # enumsOf ms"
| "enumsOf (_ # ms) = enumsOf ms"

text \<open>The last loop: a table for every member schema that has a target.\<close>

fun generateConceptTables ::
  "nat \<Rightarrow> SchemaDecl list \<Rightarrow> (string \<times> TypeArg) list \<Rightarrow> GeneratorContext \<Rightarrow>
   GeneratorContext option" where
  "generateConceptTables stack [] schemaToTable ctx = Some ctx"
| "generateConceptTables stack (schema # rest) schemaToTable ctx =
     (case mapGet schemaToTable (sd_name schema) of
        None \<Rightarrow> generateConceptTables stack rest schemaToTable ctx
      | Some mapping \<Rightarrow>
          Option.bind (resolveSchema stack schema (ta_tableName mapping) ctx)
            (\<lambda>resolved.
               generateConceptTables stack rest schemaToTable (generateTableSql resolved ctx)))"

text \<open>
  The calls of \<open>resolveSchema\<close>, and with them the outermost calls of \<open>resolveMixins\<close>, are
  all made from \<open>processInstantiation\<close>, itself called from \<open>processDeclaration\<close> in the
  loop of \<open>generate\<close>: at the same depth of the stack. \<open>stack\<close> is the number of frames of
  \<open>resolveMixins\<close> that the stack holds from there.
\<close>

definition processInstantiation ::
  "nat \<Rightarrow> Instantiation \<Rightarrow> GeneratorContext \<Rightarrow> GeneratorContext option" where
  "processInstantiation stack decl ctx =
     (case mapGet (concepts ctx) (in_conceptName decl) of
        None \<Rightarrow>
          (case mapGet (schemas ctx) (in_conceptName decl) of
             None \<Rightarrow> Some ctx
           | Some schema \<Rightarrow>
               (case in_targets decl of
                  [] \<Rightarrow> Some ctx
                | target # _ \<Rightarrow>
                    (let tn = ta_tableName target;
                         ctx1 = ctx\<lparr>tableToSchema := mapSet (sd_name schema) tn (tableToSchema ctx)\<rparr>
                     in map_option (\<lambda>resolved. generateTableSql resolved ctx1)
                          (resolveSchema stack schema tn ctx1))))
      | Some concept \<Rightarrow>
          (let ctx1 = bindTypeParams (zip (cd_typeParams concept) (in_typeArgs decl))
                        (ctx\<lparr>templateSubs := []\<rparr>);
               conceptSchemas = schemasOf (cd_members concept)
           in case bindTargets (zip (in_targets decl) conceptSchemas) ([], ctx1) of
                (schemaToTable, ctx2) \<Rightarrow>
                  generateConceptTables stack conceptSchemas schemaToTable
                    (foldl (\<lambda>c e. generateEnumSql e c) ctx2 (enumsOf (cd_members concept)))))"

definition processPerInstanceIndex :: "PerInstanceIndex \<Rightarrow> GeneratorContext \<Rightarrow> GeneratorContext" where
  "processPerInstanceIndex decl ctx =
     (let indexDef = \<lparr> idx_columns = pi_columns decl, idx_unique = pi_unique decl,
                       idx_using = pi_using decl \<rparr>
      in ctx\<lparr>perInstanceIndexSql := perInstanceIndexSql ctx @
               [generateIndexSql (pi_tableName decl) indexDef ctx]\<rparr>)"

fun processDeclaration ::
  "nat \<Rightarrow> TopLevelDeclaration \<Rightarrow> GeneratorContext \<Rightarrow> GeneratorContext option" where
  "processDeclaration stack (TExtensionDecl d) ctx = Some (processExtension d ctx)"
| "processDeclaration stack (TFunctionDecl d) ctx = Some (processFunction d ctx)"
| "processDeclaration stack (TEnumDecl d) ctx = Some (processEnum d ctx)"
| "processDeclaration stack (TSchemaDecl d) ctx = Some (processStandaloneSchema d ctx)"
| "processDeclaration stack (TConceptDecl d) ctx = Some ctx"
| "processDeclaration stack (TInstantiation d) ctx = processInstantiation stack d ctx"
| "processDeclaration stack (TPerInstanceIndex d) ctx = Some (processPerInstanceIndex d ctx)"

fun processDeclarations ::
  "nat \<Rightarrow> TopLevelDeclaration list \<Rightarrow> GeneratorContext \<Rightarrow> GeneratorContext option" where
  "processDeclarations stack [] ctx = Some ctx"
| "processDeclarations stack (d # ds) ctx =
     Option.bind (processDeclaration stack d ctx) (processDeclarations stack ds)"

section \<open>Final assembly\<close>

text \<open>
  \<open>table.match(/CREATE TABLE (\w+)/)\<close>: the first place of the text where the words are
  followed by a word character; the group is the run of word characters there.
\<close>

fun tableMatch :: "string \<Rightarrow> string option" where
  "tableMatch [] = None"
| "tableMatch (c # cs) =
     (if startsWith (c # cs) ''CREATE TABLE '' \<and> takeWhile isWord (drop 13 (c # cs)) \<noteq> []
      then Some (takeWhile isWord (drop 13 (c # cs)))
      else tableMatch cs)"

definition tableWithIndexes :: "GeneratorContext \<Rightarrow> string list" where
  "tableWithIndexes ctx =
     concat (map (\<lambda>t.
       (if t \<noteq> [] then [t] else []) @
       (case tableMatch t of
          None \<Rightarrow> []
        | Some tn \<Rightarrow>
            filter (\<lambda>idx. includesStr idx ('' ON '' @ tn @ '' '')) (indexSql ctx) @
            filter (\<lambda>trg. includesStr trg ('' ON '' @ tn)) (triggerSql ctx))) (tableSql ctx))"

definition joinSection :: "string list \<Rightarrow> string list" where
  "joinSection xs = (if xs \<noteq> [] then [join (nl @ nl) xs] else [])"

definition assemble :: "GeneratorContext \<Rightarrow> string" where
  "assemble ctx =
     (let sections = joinSection (extensionSql ctx) @ joinSection (functionSql ctx) @
                     joinSection (enumSql ctx) @ joinSection (tableWithIndexes ctx) @
                     joinSection (perInstanceIndexSql ctx)
      in ''-- Generated SQL from Schema DSL'' @ nl @ nl @ join (nl @ nl) sections @ nl)"

text \<open>
  \<open>generate\<close> builds its context itself, collects the definitions and processes the
  declarations in order. \<open>None\<close> is a generation that ends in the \<open>RangeError\<close> of an
  exhausted stack; nothing else in the generator throws.
\<close>

definition generate :: "nat \<Rightarrow> GSQLProgram \<Rightarrow> string option" where
  "generate stack ast =
     map_option assemble
       (processDeclarations stack ast (collectDefinitions ast createContext))"

section \<open>Instantiations that name nothing\<close>

text \<open>
  The instantiation of the repository's edge-case test \<open>handles AST with missing concept
  reference\<close>.
\<close>

definition missingDecl :: Instantiation where
  "missingDecl =
     \<lparr> in_targets = [\<lparr>ta_tableName = ''test'', ta_alias = None\<rparr>],
       in_conceptName = ''NonExistentConcept'', in_typeArgs = [] \<rparr>"

text \<open>
  C5. An instantiation whose concept name is neither in the concept table nor in the schema
  table of the context returns normally and leaves the context as it was: nothing is
  emitted, nothing is recorded, and the declarations behind it are processed from the
  same context.
\<close>

theorem unknown_instantiation_noop:
  assumes "mapGet (concepts ctx) (in_conceptName decl) = None"
    and "mapGet (schemas ctx) (in_conceptName decl) = None"
  shows "processInstantiation stack decl ctx = Some ctx \<and>
         processDeclarations stack (TInstantiation decl # ds) ctx =
           processDeclarations stack ds ctx"
  using assms by (simp add: processInstantiation_def)

theorem unknown_instantiation_noop_witness:
  "mapGet (concepts createContext) (in_conceptName missingDecl) = None \<and>
   mapGet (schemas createContext) (in_conceptName missingDecl) = None \<and>
   processInstantiation 0 missingDecl createContext = Some createContext \<and>
   processDeclarations 0 [TInstantiation missingDecl] createContext = Some createContext"
  using unknown_instantiation_noop [of createContext missingDecl 0 "[]"]
  by (simp add: createContext_def mapGet_def)

section \<open>The substitution map on the schema path\<close>

text \<open>
  A schema with a template column, instantiated directly from a context in which an
  earlier concept instantiation has left \<open>Target\<close> bound to \<open>examLOL\<close>; the same schema
  with a second template column, whose parameter \<open>Owner\<close> has no entry in the map.
\<close>

definition Plain :: SchemaDecl where
  "Plain =
     \<lparr> sd_name = ''Plain'', sd_mixins = [],
       sd_members =
         [IColumnDef \<lparr>col_name = ''{Target}_id'', col_dataType = ''integer'',
                      col_constraints = []\<rparr>,
          IColumnDef \<lparr>col_name = ''{PageOwner}_id'', col_dataType = ''integer'',
                      col_constraints = []\<rparr>] \<rparr>"

definition plainDecl :: Instantiation where
  "plainDecl =
     \<lparr> in_targets = [\<lparr>ta_tableName = ''plain'', ta_alias = None\<rparr>],
       in_conceptName = ''Plain'', in_typeArgs = [] \<rparr>"

definition staleCtx :: GeneratorContext where
  "staleCtx =
     createContext\<lparr> schemas := [(''Plain'', Plain)],
                     templateSubs := [(''Target'', ''examLOL'')] \<rparr>"

text \<open>
  The specification's words for the name of a template column \<open>{param}suffix\<close> under a
  substitution map: the value the map has for the parameter, or the snake case of the
  parameter's name when the map has no entry for it, followed by the suffix.
\<close>

definition templateColumnName :: "(string \<times> string) list \<Rightarrow> string \<Rightarrow> string \<Rightarrow> string" where
  "templateColumnName subs param suffix =
     (case map_of subs param of Some v \<Rightarrow> v | None \<Rightarrow> toSnakeCase param) @ suffix"

text \<open>
  The context in which \<open>processInstantiation\<close> generates the table of a directly
  instantiated schema: the schema is mapped to its table and the table is recorded as
  generated.
\<close>

definition schemaPathContext :: "SchemaDecl \<Rightarrow> string \<Rightarrow> GeneratorContext \<Rightarrow> GeneratorContext" where
  "schemaPathContext schema tn ctx =
     ctx\<lparr> tableToSchema := mapSet (sd_name schema) tn (tableToSchema ctx),
          generatedTables := insert tn (generatedTables ctx) \<rparr>"

lemma generateTableSql_templateSubs: "templateSubs (generateTableSql r ctx) = templateSubs ctx"
  by (simp add: generateTableSql_def Let_def)

lemma join_head: "join sep (x # xs) = x @ (if xs = [] then [] else sep @ join sep xs)"
  by (cases xs) simp_all

lemma constraintSql_parts:
  "\<exists>more. fst (constraintSql col ctx (parts, post) c) = parts @ more"
  by (cases "c_type c") (simp_all add: constraintSql_def Let_def)

lemma foldl_constraintSql_parts:
  "\<exists>more. fst (foldl (constraintSql col ctx) (parts, post) cs) = parts @ more"
proof (induction cs arbitrary: parts post)
  case Nil
  show ?case by simp
next
  case (Cons c cs)
  obtain parts' post' where s: "constraintSql col ctx (parts, post) c = (parts', post')"
    by (cases "constraintSql col ctx (parts, post) c")
  obtain m1 where m1: "parts' = parts @ m1"
    using constraintSql_parts [of col ctx parts post c] s by auto
  obtain m2 where "fst (foldl (constraintSql col ctx) (parts', post') cs) = parts' @ m2"
    using Cons [of parts' post'] by blast
  then show ?case using s m1 by auto
qed

text \<open>The line of a column begins with its expanded name and its data type.\<close>

lemma generateColumnSql_head:
  "\<exists>rest. generateColumnSql col ctx =
     ''    '' @ expandTemplate (col_name col) ctx @ '' '' @ toUpperCase (col_dataType col) @ rest"
proof -
  let ?first = "''    '' @ expandTemplate (col_name col) ctx @ '' '' @ toUpperCase (col_dataType col)"
  obtain parts post where f:
    "foldl (constraintSql col ctx) ([?first], []) (col_constraints col) = (parts, post)"
    by (cases "foldl (constraintSql col ctx) ([?first], []) (col_constraints col)")
  obtain more where "parts = [?first] @ more"
    using foldl_constraintSql_parts [of col ctx "[?first]" "[]" "col_constraints col"] f by auto
  then have "join '' '' (parts @ post) =
      ?first @ (if more @ post = [] then [] else '' '' @ join '' '' (more @ post))"
    using join_head [of "'' ''" ?first "more @ post"] by simp
  then have "generateColumnSql col ctx =
      ?first @ (if more @ post = [] then [] else '' '' @ join '' '' (more @ post))"
    using f by (simp add: generateColumnSql_def Let_def)
  then show ?thesis by (metis append.assoc)
qed

text \<open>
  C10. An instantiation whose name is a concept does not depend on the substitution map
  it finds: the map is cleared. An instantiation whose name is no concept leaves the map
  as it found it. When the name is a schema, with a target whose table has not been
  generated, the statement of the table is appended, with the lines of the resolved
  columns and checks generated in the context of the schema path, which has the map as
  the call found it; there the line of a template column \<open>{param}suffix\<close> begins with the
  value this map has for the parameter, or with the snake case of the parameter when the
  map has none, followed by the suffix and the data type. Where the resolution of the
  schema's mixins exhausts the stack, both sides of the equations are the thrown error.
\<close>

theorem schema_path_expands_with_found_map:
  "(mapGet (concepts ctx) (in_conceptName decl) \<noteq> None \<longrightarrow>
      processInstantiation stack decl (ctx\<lparr>templateSubs := subs\<rparr>) =
        processInstantiation stack decl ctx) \<and>
   (mapGet (concepts ctx) (in_conceptName decl) = None \<longrightarrow>
      map_option templateSubs (processInstantiation stack decl ctx) =
        map_option (\<lambda>_. templateSubs ctx) (processInstantiation stack decl ctx) \<and>
      (\<forall>schema target others.
         mapGet (schemas ctx) (in_conceptName decl) = Some schema \<and>
         in_targets decl = target # others \<and>
         ta_tableName target \<notin> generatedTables ctx \<longrightarrow>
         templateSubs (schemaPathContext schema (ta_tableName target) ctx) = templateSubs ctx \<and>
         map_option tableSql (processInstantiation stack decl ctx) =
           map_option
             (\<lambda>resolved.
                tableSql ctx @
                [''CREATE TABLE '' @ ta_tableName target @ '' ('' @ nl @
                 join ('','' @ nl)
                   (map (\<lambda>c. generateColumnSql c
                                (schemaPathContext schema (ta_tableName target) ctx))
                      (rs_columns resolved) @
                    map (\<lambda>c. generateCheckSql (ta_tableName target) c
                                (schemaPathContext schema (ta_tableName target) ctx))
                      (rs_checks resolved)) @
                 nl @ '');''])
             (resolveSchema stack schema (ta_tableName target)
                (ctx\<lparr>tableToSchema :=
                       mapSet (sd_name schema) (ta_tableName target) (tableToSchema ctx)\<rparr>)) \<and>
         (\<forall>c param suffix.
            templateMatch (col_name c) = Some (param, suffix) \<longrightarrow>
            (\<exists>rest.
               generateColumnSql c (schemaPathContext schema (ta_tableName target) ctx) =
                 ''    '' @ templateColumnName (templateSubs ctx) param suffix @ '' '' @
                 toUpperCase (col_dataType c) @ rest))))"
proof (intro conjI impI allI)
  assume "mapGet (concepts ctx) (in_conceptName decl) \<noteq> None"
  then show "processInstantiation stack decl (ctx\<lparr>templateSubs := subs\<rparr>) =
      processInstantiation stack decl ctx"
    by (auto simp: processInstantiation_def)
next
  assume "mapGet (concepts ctx) (in_conceptName decl) = None"
  then show "map_option templateSubs (processInstantiation stack decl ctx) =
      map_option (\<lambda>_. templateSubs ctx) (processInstantiation stack decl ctx)"
    by (auto simp: processInstantiation_def Let_def generateTableSql_templateSubs
        option.map_comp comp_def split: option.splits list.splits)
next
  fix schema target others
  show "templateSubs (schemaPathContext schema (ta_tableName target) ctx) = templateSubs ctx"
    by (simp add: schemaPathContext_def)
next
  fix schema target others
  assume c: "mapGet (concepts ctx) (in_conceptName decl) = None"
    and s: "mapGet (schemas ctx) (in_conceptName decl) = Some schema \<and>
            in_targets decl = target # others \<and>
            ta_tableName target \<notin> generatedTables ctx"
  let ?tn = "ta_tableName target"
  let ?c1 = "ctx\<lparr>tableToSchema := mapSet (sd_name schema) ?tn (tableToSchema ctx)\<rparr>"
  have g: "tableSql (generateTableSql r ?c1) =
      tableSql ctx @
      [''CREATE TABLE '' @ ?tn @ '' ('' @ nl @
       join ('','' @ nl)
         (map (\<lambda>c. generateColumnSql c (schemaPathContext schema ?tn ctx)) (rs_columns r) @
          map (\<lambda>c. generateCheckSql ?tn c (schemaPathContext schema ?tn ctx)) (rs_checks r)) @
       nl @ '');'']"
    if "rs_tableName r = ?tn" for r
    using s that by (simp add: generateTableSql_def Let_def schemaPathContext_def)
  have n: "rs_tableName r = ?tn" if "resolveSchema stack schema ?tn ?c1 = Some r" for r
    using that by (auto simp: resolveSchema_def)
  show "map_option tableSql (processInstantiation stack decl ctx) =
      map_option
        (\<lambda>resolved.
           tableSql ctx @
           [''CREATE TABLE '' @ ?tn @ '' ('' @ nl @
            join ('','' @ nl)
              (map (\<lambda>c. generateColumnSql c (schemaPathContext schema ?tn ctx))
                 (rs_columns resolved) @
               map (\<lambda>c. generateCheckSql ?tn c (schemaPathContext schema ?tn ctx))
                 (rs_checks resolved)) @
            nl @ '');''])
        (resolveSchema stack schema ?tn ?c1)"
  proof (cases "resolveSchema stack schema ?tn ?c1")
    case None
    then show ?thesis using c s by (simp add: processInstantiation_def Let_def)
  next
    case (Some r)
    then show ?thesis
      using c s g [OF n [OF Some]] by (simp add: processInstantiation_def Let_def)
  qed
next
  fix schema target others and c :: ColumnDef and param suffix
  assume m: "templateMatch (col_name c) = Some (param, suffix)"
  let ?cT = "schemaPathContext schema (ta_tableName target) ctx"
  have "expandTemplate (col_name c) ?cT = templateColumnName (templateSubs ctx) param suffix"
    by (simp add: expandTemplate_def m templateColumnName_def mapGet_def schemaPathContext_def)
  then show "\<exists>rest. generateColumnSql c ?cT =
      ''    '' @ templateColumnName (templateSubs ctx) param suffix @ '' '' @
      toUpperCase (col_dataType c) @ rest"
    using generateColumnSql_head [of c ?cT] by simp
qed

theorem schema_path_expands_with_found_map_witness:
  "mapGet (concepts staleCtx) (in_conceptName plainDecl) = None \<and>
   mapGet (schemas staleCtx) (in_conceptName plainDecl) = Some Plain \<and>
   in_targets plainDecl = [\<lparr>ta_tableName = ''plain'', ta_alias = None\<rparr>] \<and>
   ''plain'' \<notin> generatedTables staleCtx \<and>
   templateSubs staleCtx = [(''Target'', ''examLOL'')] \<and>
   map_option templateSubs (processInstantiation (Suc 0) plainDecl staleCtx) =
     Some [(''Target'', ''examLOL'')] \<and>
   map_option tableSql (processInstantiation (Suc 0) plainDecl staleCtx) =
     Some [''CREATE TABLE plain ('' @ nl @
           ''    examLOL_id INTEGER,'' @ nl @
           ''    page_owner_id INTEGER'' @ nl @ '');'']"
proof -
  let ?target = "\<lparr>ta_tableName = ''plain'', ta_alias = None\<rparr>"
  let ?ctx1 = "staleCtx\<lparr>tableToSchema := mapSet (sd_name Plain) ''plain'' (tableToSchema staleCtx)\<rparr>"
  let ?cT = "schemaPathContext Plain ''plain'' staleCtx"
  have c: "mapGet (concepts staleCtx) (in_conceptName plainDecl) = None"
    by (simp add: staleCtx_def createContext_def plainDecl_def mapGet_def)
  have s: "mapGet (schemas staleCtx) (in_conceptName plainDecl) = Some Plain"
    by (simp add: staleCtx_def createContext_def plainDecl_def mapGet_def)
  have t: "in_targets plainDecl = [?target]"
    by (simp add: plainDecl_def)
  have g: "''plain'' \<notin> generatedTables staleCtx"
    by (simp add: staleCtx_def createContext_def)
  have ts: "templateSubs staleCtx = [(''Target'', ''examLOL'')]"
    by (simp add: staleCtx_def createContext_def)
  have r: "resolveSchema (Suc 0) Plain ''plain'' ?ctx1 =
      Some \<lparr> rs_tableName = ''plain'',
             rs_columns =
               [\<lparr>col_name = ''{Target}_id'', col_dataType = ''integer'', col_constraints = []\<rparr>,
                \<lparr>col_name = ''{PageOwner}_id'', col_dataType = ''integer'',
                 col_constraints = []\<rparr>],
             rs_indexes = [], rs_checks = [], rs_triggers = [] \<rparr>"
    by code_simp
  have l1: "generateColumnSql
      \<lparr>col_name = ''{Target}_id'', col_dataType = ''integer'', col_constraints = []\<rparr> ?cT =
      ''    examLOL_id INTEGER''"
    by code_simp
  have l2: "generateColumnSql
      \<lparr>col_name = ''{PageOwner}_id'', col_dataType = ''integer'', col_constraints = []\<rparr> ?cT =
      ''    page_owner_id INTEGER''"
    by code_simp
  note T = schema_path_expands_with_found_map
    [where ctx = staleCtx and decl = plainDecl and stack = "Suc 0"]
  have g': "ta_tableName ?target \<notin> generatedTables staleCtx"
    using g by simp
  note T2 = T [THEN conjunct2, THEN mp, OF c]
  note T3 = T2 [THEN conjunct2, THEN spec [where x = Plain], THEN spec [where x = "?target"],
      THEN spec [where x = "[]"], THEN mp, OF conjI [OF s conjI [OF t g']]]
  note T4 = T3 [THEN conjunct2, THEN conjunct1]
  have tn: "ta_tableName ?target = ''plain''" by simp
  have ts0: "tableSql staleCtx = []" by (simp add: staleCtx_def createContext_def)
  from T4
  have e: "map_option tableSql (processInstantiation (Suc 0) plainDecl staleCtx) =
      Some [''CREATE TABLE plain ('' @ nl @
            ''    examLOL_id INTEGER,'' @ nl @
            ''    page_owner_id INTEGER'' @ nl @ '');'']"
    unfolding tn r by (simp add: l1 l2 ts0)
  then obtain ctx' where p: "processInstantiation (Suc 0) plainDecl staleCtx = Some ctx'"
    by (cases "processInstantiation (Suc 0) plainDecl staleCtx") auto
  have "map_option templateSubs (processInstantiation (Suc 0) plainDecl staleCtx) =
      map_option (\<lambda>_. templateSubs staleCtx) (processInstantiation (Suc 0) plainDecl staleCtx)"
    using T2 by (rule conjunct1)
  then have m: "map_option templateSubs (processInstantiation (Suc 0) plainDecl staleCtx) =
      Some [(''Target'', ''examLOL'')]"
    by (simp add: p ts)
  from c s t g ts m e show ?thesis by blast
qed

section \<open>Enum defaults\<close>

text \<open>The images of the lexer's identifier pattern \<open>[a-zA-Z_][a-zA-Z0-9_]*\<close>.\<close>

fun isIdentifier :: "string \<Rightarrow> bool" where
  "isIdentifier [] = False"
| "isIdentifier (c # cs) = (isWord c \<and> \<not> isDigit c \<and> list_all isWord cs)"

text \<open>
  A column of type \<open>status\<close> in a context that knows the enum \<open>status\<close>, and the three
  spellings of its default; then an enum whose name has a capital letter.
\<close>

definition statusEnum :: EnumDecl where
  "statusEnum = \<lparr> en_name = ''status'', en_values = [''active'', ''inactive''] \<rparr>"

definition statusCtx :: GeneratorContext where
  "statusCtx = createContext\<lparr> enums := [(''status'', statusEnum)] \<rparr>"

definition defaultOf :: "string \<Rightarrow> ColumnConstraint" where
  "defaultOf v =
     \<lparr> c_type = Default, c_value = Some v, c_table = None, c_column = None, c_action = None \<rparr>"

definition statusCol :: "string \<Rightarrow> ColumnDef" where
  "statusCol v = \<lparr> col_name = ''state'', col_dataType = ''status'', col_constraints = [defaultOf v] \<rparr>"

definition upperEnumProgram :: GSQLProgram where
  "upperEnumProgram =
     [TEnumDecl \<lparr> en_name = ''Status'', en_values = [''active'', ''inactive''] \<rparr>,
      TSchemaDecl
        \<lparr> sd_name = ''Account'', sd_mixins = [],
          sd_members =
            [IColumnDef \<lparr> col_name = ''state'', col_dataType = ''Status'',
                           col_constraints = [defaultOf ''active''] \<rparr>] \<rparr>,
      TInstantiation
        \<lparr> in_targets = [\<lparr>ta_tableName = ''accounts'', ta_alias = None\<rparr>],
          in_conceptName = ''Account'', in_typeArgs = [] \<rparr>]"

lemma isWord_not_colon: "isWord c \<Longrightarrow> c \<noteq> CHR '':''"
  by (auto simp: isWord_def isUpper_def isLower_def isDigit_def)

lemma isWord_not_quote: "isWord c \<Longrightarrow> c \<noteq> CHR 0x27"
  by (auto simp: isWord_def isUpper_def isLower_def isDigit_def)

lemma isIdentifier_words: "isIdentifier s \<Longrightarrow> s \<noteq> [] \<and> list_all isWord s"
  by (cases s) auto

lemma takeWhile_all: "list_all P xs \<Longrightarrow> takeWhile P (xs @ ys) = xs @ takeWhile P ys"
  by (induction xs) auto

lemma dropWhile_all: "list_all P xs \<Longrightarrow> dropWhile P (xs @ ys) = dropWhile P ys"
  by (induction xs) auto

lemma startsWith_append: "startsWith (p @ ys) p"
  by (induction p) auto

lemma includesStr_append: "includesStr (xs @ p @ ys) p"
proof (induction xs)
  case Nil
  show ?case using startsWith_append [of p ys] by (cases "p @ ys") auto
next
  case (Cons x xs)
  then show ?case by simp
qed

lemma words_no_cast: "list_all isWord v \<Longrightarrow> \<not> includesStr v ''::''"
  by (induction v) (auto dest: isWord_not_colon)

lemma matchCast_pair:
  assumes "t \<noteq> []" "list_all isWord t" "v \<noteq> []" "list_all isWord v"
  shows "matchCast (t @ ''::'' @ v) = Some (sq @ v @ sq @ ''::'' @ t, [])"
proof -
  have t1: "takeWhile isWord (t @ ''::'' @ v) = t"
    using assms(2) by (simp add: takeWhile_all isWord_def isUpper_def isLower_def isDigit_def)
  have d1: "dropWhile isWord (t @ ''::'' @ v) = ''::'' @ v"
    using assms(2) by (simp add: dropWhile_all isWord_def isUpper_def isLower_def isDigit_def)
  have t2: "takeWhile isWord v = v" using assms(4) by (induction v) auto
  have d2: "dropWhile isWord v = []" using assms(4) by (induction v) auto
  show ?thesis
    unfolding matchCast_def t1 d1 using assms(1,3) by (simp add: t2 d2)
qed

lemma formatTypeCast_pair:
  assumes "t \<noteq> []" "list_all isWord t" "v \<noteq> []" "list_all isWord v"
  shows "formatTypeCast (t @ ''::'' @ v) = sq @ v @ sq @ ''::'' @ t"
proof -
  obtain c cs where s: "t @ ''::'' @ v = c # cs" using assms(1) by (cases t) auto
  have m: "matchCast (c # cs) = Some (sq @ v @ sq @ ''::'' @ t, [])"
    using matchCast_pair [OF assms] unfolding s .
  have "replaceAll matchCast (t @ ''::'' @ v) = sq @ v @ sq @ ''::'' @ t"
    unfolding s by (simp add: m)
  then show ?thesis
    using includesStr_append [of t "''::''" v] by (simp add: formatTypeCast_def)
qed

lemma alreadyFormatted_word: "list_all isWord v \<Longrightarrow> \<not> alreadyFormatted v"
  by (cases v) (auto simp: alreadyFormatted_def dest: isWord_not_quote)

lemma alreadyFormatted_cast:
  assumes "CHR 0x27 \<notin> set body" "ident \<noteq> []" "list_all isWord ident"
  shows "alreadyFormatted (sq @ body @ sq @ ''::'' @ ident)"
proof -
  have "dropWhile (\<lambda>c. c \<noteq> CHR 0x27) (body @ sq @ ''::'' @ ident) = sq @ ''::'' @ ident"
    using assms(1) by (induction body) (auto simp: sq_def)
  then show ?thesis
    using assms(2,3) by (simp add: alreadyFormatted_def sq_def)
qed

text \<open>
  What holds of the defaults of enum columns. The turn of the constraint loop for a
  \<open>Default\<close> looks the lower-cased data type of the column up in the enum table. When it
  is there: an identifier \<open>v\<close> other than \<open>NULL\<close> is emitted as \<open>'v'::\<close> followed by the
  lower-cased type, a qualified pair \<open>t::v\<close> as \<open>'v'::t\<close>, and a text of the shape
  \<open>'...'::ident\<close> as it is. The text \<open>NULL\<close> is emitted as it is whatever the type of the
  column.
\<close>

lemma enum_default_normalisation:
  assumes "c_type c = Default"
  shows "(mapHas (enums ctx) (toLowerCase (col_dataType col)) \<longrightarrow>
           (isIdentifier v \<and> v \<noteq> ''NULL'' \<and> c_value c = Some v \<longrightarrow>
              constraintSql col ctx (parts, post) c =
                (parts @ [''DEFAULT '' @ sq @ v @ sq @ ''::'' @ toLowerCase (col_dataType col)],
                 post)) \<and>
           (isIdentifier t \<and> isIdentifier v \<and> c_value c = Some (t @ ''::'' @ v) \<longrightarrow>
              constraintSql col ctx (parts, post) c =
                (parts @ [''DEFAULT '' @ sq @ v @ sq @ ''::'' @ t], post)) \<and>
           (CHR 0x27 \<notin> set body \<and> ident \<noteq> [] \<and> list_all isWord ident \<and>
            c_value c = Some (sq @ body @ sq @ ''::'' @ ident) \<longrightarrow>
              constraintSql col ctx (parts, post) c =
                (parts @ [''DEFAULT '' @ sq @ body @ sq @ ''::'' @ ident], post))) \<and>
         (c_value c = Some ''NULL'' \<longrightarrow>
            constraintSql col ctx (parts, post) c = (parts @ [''DEFAULT NULL''], post))"
proof (intro conjI impI)
  assume e: "mapHas (enums ctx) (toLowerCase (col_dataType col))"
    and h: "isIdentifier v \<and> v \<noteq> ''NULL'' \<and> c_value c = Some v"
  then have w: "list_all isWord v" using isIdentifier_words by blast
  have "formatEnumDefault v (toLowerCase (col_dataType col)) =
      sq @ v @ sq @ ''::'' @ toLowerCase (col_dataType col)"
    using h by (simp add: formatEnumDefault_def alreadyFormatted_word [OF w] words_no_cast [OF w])
  then show "constraintSql col ctx (parts, post) c =
      (parts @ [''DEFAULT '' @ sq @ v @ sq @ ''::'' @ toLowerCase (col_dataType col)], post)"
    using assms e h by (simp add: constraintSql_def)
next
  assume e: "mapHas (enums ctx) (toLowerCase (col_dataType col))"
    and h: "isIdentifier t \<and> isIdentifier v \<and> c_value c = Some (t @ ''::'' @ v)"
  then have wt: "t \<noteq> []" "list_all isWord t" and wv: "v \<noteq> []" "list_all isWord v"
    using isIdentifier_words by blast+
  have nq: "\<not> alreadyFormatted (t @ ''::'' @ v)"
    using wt by (cases t) (auto simp: alreadyFormatted_def dest: isWord_not_quote)
  have nn: "t @ ''::'' @ v \<noteq> ''NULL''"
  proof
    assume "t @ ''::'' @ v = ''NULL''"
    then have "includesStr ''NULL'' ''::''" using includesStr_append [of t "''::''" v] by simp
    then show False by simp
  qed
  have "formatEnumDefault (t @ ''::'' @ v) (toLowerCase (col_dataType col)) =
      sq @ v @ sq @ ''::'' @ t"
    unfolding formatEnumDefault_def
    using nq nn includesStr_append [of t "''::''" v] formatTypeCast_pair [OF wt wv] by simp
  then show "constraintSql col ctx (parts, post) c =
      (parts @ [''DEFAULT '' @ sq @ v @ sq @ ''::'' @ t], post)"
    using assms e h by (simp add: constraintSql_def)
next
  assume e: "mapHas (enums ctx) (toLowerCase (col_dataType col))"
    and h: "CHR 0x27 \<notin> set body \<and> ident \<noteq> [] \<and> list_all isWord ident \<and>
          c_value c = Some (sq @ body @ sq @ ''::'' @ ident)"
  then have "alreadyFormatted (sq @ body @ sq @ ''::'' @ ident)"
    using alreadyFormatted_cast by blast
  then have "formatEnumDefault (sq @ body @ sq @ ''::'' @ ident) (toLowerCase (col_dataType col)) =
      sq @ body @ sq @ ''::'' @ ident"
    by (simp add: formatEnumDefault_def)
  then show "constraintSql col ctx (parts, post) c =
      (parts @ [''DEFAULT '' @ sq @ body @ sq @ ''::'' @ ident], post)"
    using assms e h by (simp add: constraintSql_def)
next
  assume "c_value c = Some ''NULL''"
  then show "constraintSql col ctx (parts, post) c = (parts @ [''DEFAULT NULL''], post)"
    using assms by (simp add: constraintSql_def formatEnumDefault_def Let_def)
qed

lemma enum_default_normalisation_examples:
  "mapHas (enums statusCtx) (toLowerCase (col_dataType (statusCol ''active''))) \<and>
   constraintSql (statusCol ''active'') statusCtx ([], []) (defaultOf ''active'') =
     ([''DEFAULT '' @ sq @ ''active'' @ sq @ ''::status''], []) \<and>
   constraintSql (statusCol ''active'') statusCtx ([], []) (defaultOf ''status::active'') =
     ([''DEFAULT '' @ sq @ ''active'' @ sq @ ''::status''], []) \<and>
   constraintSql (statusCol ''active'') statusCtx ([], [])
       (defaultOf (sq @ ''active'' @ sq @ ''::status'')) =
     ([''DEFAULT '' @ sq @ ''active'' @ sq @ ''::status''], []) \<and>
   constraintSql (statusCol ''active'') statusCtx ([], []) (defaultOf ''NULL'') =
     ([''DEFAULT NULL''], [])"
proof -
  have e: "mapHas (enums statusCtx) (toLowerCase (col_dataType (statusCol ''active'')))"
    by code_simp
  have l: "toLowerCase (col_dataType (statusCol ''active'')) = ''status''"
    by code_simp
  have d: "c_type (defaultOf x) = Default" "c_value (defaultOf x) = Some x" for x
    by (simp_all add: defaultOf_def)
  have i: "isIdentifier ''active''" "isIdentifier ''status''" "list_all isWord ''status''"
    by code_simp+
  have a: "constraintSql (statusCol ''active'') statusCtx ([], []) (defaultOf ''active'') =
     ([''DEFAULT '' @ sq @ ''active'' @ sq @ ''::status''], [])"
    using enum_default_normalisation [OF d(1), where ctx = statusCtx
        and col = "statusCol ''active''" and v = "''active''" and parts = "[]" and post = "[]"
        and x1 = "''active''"]
      e i d(2) [of "''active''"] unfolding l by simp
  have b: "constraintSql (statusCol ''active'') statusCtx ([], []) (defaultOf ''status::active'') =
     ([''DEFAULT '' @ sq @ ''active'' @ sq @ ''::status''], [])"
    using enum_default_normalisation [OF d(1), where ctx = statusCtx
        and col = "statusCol ''active''" and t = "''status''" and v = "''active''"
        and parts = "[]" and post = "[]" and x1 = "''status::active''"]
      e i d(2) [of "''status::active''"] by simp
  have c: "constraintSql (statusCol ''active'') statusCtx ([], [])
       (defaultOf (sq @ ''active'' @ sq @ ''::status'')) =
     ([''DEFAULT '' @ sq @ ''active'' @ sq @ ''::status''], [])"
    using enum_default_normalisation [OF d(1), where ctx = statusCtx
        and col = "statusCol ''active''" and body = "''active''" and ident = "''status''"
        and parts = "[]" and post = "[]" and x1 = "sq @ ''active'' @ sq @ ''::status''"]
      e i d(2) [of "sq @ ''active'' @ sq @ ''::status''"] by simp
  have n: "constraintSql (statusCol ''active'') statusCtx ([], []) (defaultOf ''NULL'') =
     ([''DEFAULT NULL''], [])"
    using enum_default_normalisation [OF d(1), where ctx = statusCtx
        and col = "statusCol ''active''" and parts = "[]" and post = "[]" and x1 = "''NULL''"]
      d(2) [of "''NULL''"] by simp
  from e a b c n show ?thesis by blast
qed

text \<open>
  C2. A column whose data type is the name of a known enum should have its default
  \<open>active\<close> emitted as \<open>'active'::\<close> and the type. For the enum \<open>Status\<close>, whose name has a
  capital letter, it is not: the enum is in the table under \<open>Status\<close>, the lookup is made
  with the lower-cased type \<open>status\<close> and finds nothing, and the default is emitted as it
  was written, \<open>DEFAULT active\<close>, on every stack that holds a call of \<open>resolveMixins\<close>.
\<close>

theorem enum_default_uppercase_not_normalised:
  "mapHas (enums (collectDefinitions upperEnumProgram createContext)) ''Status'' \<and>
   generate (Suc stack) upperEnumProgram =
     Some (''-- Generated SQL from Schema DSL'' @ nl @ nl @
           ''DO $$ BEGIN'' @ nl @
           ''    CREATE TYPE Status AS ENUM ('' @ sq @ ''active'' @ sq @ '', '' @
             sq @ ''inactive'' @ sq @ '');'' @ nl @
           ''EXCEPTION'' @ nl @
           ''    WHEN duplicate_object THEN null;'' @ nl @
           ''END $$;'' @ nl @ nl @
           ''CREATE TABLE accounts ('' @ nl @
           ''    state STATUS DEFAULT active'' @ nl @
           '');'' @ nl)"
  by code_simp

section \<open>Per-instance indexes\<close>

definition plainColumn :: "string \<Rightarrow> string \<Rightarrow> SchemaBodyItem" where
  "plainColumn n t = IColumnDef \<lparr> col_name = n, col_dataType = t, col_constraints = [] \<rparr>"

































lemma join_snoc: "join sep (xs @ [y]) = (if xs = [] then y else join sep xs @ sep @ y)"
  by (induction sep xs rule: join.induct) auto



section \<open>Type parameters and template columns\<close>








lemma map_of_mapSet: "map_of (mapSet k v m) k' = (if k' = k then Some v else map_of m k')"
  by (induction m) auto











section \<open>Mixin resolution\<close>

text \<open>
  The specification's words for the result of \<open>resolveMixins\<close>: each mixin contributes its own
  resolved members, a name that is no collected schema contributes nothing, and the parts
  are put together in the order of the mixin list, before the members of the schema.
  \<open>mixinMembers\<close> is the contribution of one name, resolved in the frames that the call
  for the schema leaves.
\<close>

definition mixinMembers ::
  "nat \<Rightarrow> GeneratorContext \<Rightarrow> string \<Rightarrow> SchemaBodyItem list option" where
  "mixinMembers stack ctx mixinName =
     (case mapGet (schemas ctx) mixinName of
        None \<Rightarrow> Some []
      | Some mixin \<Rightarrow> resolveMixins stack mixin ctx)"

text \<open>
  The specification's example, \<open>schema Users mixin Timestamps { id serial pkey; }\<close>, and a
  schema that is its own mixin.
\<close>

definition Timestamps :: SchemaDecl where
  "Timestamps =
     \<lparr> sd_name = ''Timestamps'', sd_mixins = [],
       sd_members = [plainColumn ''created_at'' ''timestamptz''] \<rparr>"

definition idColumn :: SchemaBodyItem where
  "idColumn =
     IColumnDef
       \<lparr> col_name = ''id'', col_dataType = ''serial'',
         col_constraints =
           [\<lparr> c_type = PrimaryKey, c_value = None, c_table = None, c_column = None,
              c_action = None \<rparr>] \<rparr>"

definition Users :: SchemaDecl where
  "Users = \<lparr> sd_name = ''Users'', sd_mixins = [''Timestamps''], sd_members = [idColumn] \<rparr>"

definition mixinProgram :: GSQLProgram where
  "mixinProgram =
     [TSchemaDecl Timestamps, TSchemaDecl Users,
      TInstantiation
        \<lparr> in_targets = [\<lparr>ta_tableName = ''users'', ta_alias = None\<rparr>],
          in_conceptName = ''Users'', in_typeArgs = [] \<rparr>]"

definition mixinCtx :: GeneratorContext where
  "mixinCtx = collectDefinitions mixinProgram createContext"



lemma resolveMixinsLoop_flatten:
  "resolveMixinsLoop stack ctx names items =
     map_option (\<lambda>parts. items @ concat parts) (those (map (mixinMembers stack ctx) names))"
proof (induction names arbitrary: items)
  case Nil
  show ?case by simp
next
  case (Cons n rest)
  show ?case
  proof (cases "mapGet (schemas ctx) n")
    case None
    then have mm: "mixinMembers stack ctx n = Some []"
      by (simp add: mixinMembers_def)
    show ?thesis
      using None by (simp add: Cons.IH mm option.map_comp comp_def)
  next
    case (Some mixin)
    note known = this
    show ?thesis
    proof (cases stack)
      case 0
      show ?thesis using known 0 by (simp add: mixinMembers_def resolveMixins_def)
    next
      case (Suc below)
      show ?thesis
      proof (cases "resolveMixinsLoop below ctx (sd_mixins mixin) []")
        case None
        then have mm: "mixinMembers (Suc below) ctx n = None"
          using known by (simp add: mixinMembers_def resolveMixins_def)
        show ?thesis using known Suc None by (simp add: mm)
      next
        case sub: (Some sub)
        then have mm: "mixinMembers (Suc below) ctx n = Some (sub @ sd_members mixin)"
          using known by (simp add: mixinMembers_def resolveMixins_def)
        show ?thesis
          using known Suc sub by (simp add: Cons.IH [unfolded Suc] mm option.map_comp comp_def)
      qed
    qed
  qed
qed

lemma resolveMixins_flatten:
  "resolveMixins (Suc stack) schema ctx =
     map_option (\<lambda>parts. concat parts @ sd_members schema)
       (those (map (mixinMembers stack ctx) (sd_mixins schema)))"
  unfolding resolveMixins_def resolveMixinsLoop_flatten
  by (cases "those (map (mixinMembers stack ctx) (sd_mixins schema))") simp_all

lemma columnsOf_append: "columnsOf (xs @ ys) = columnsOf xs @ columnsOf ys"
  by (induction xs rule: columnsOf.induct) simp_all

lemma columnsOf_concat: "columnsOf (concat parts) = concat (map columnsOf parts)"
  by (induction parts) (simp_all add: columnsOf_append)

text \<open>
  C6. The resolved members of a schema are the resolved members of its mixins, one mixin
  after the other in the order of the list and with nothing removed, followed by the
  members of the schema itself; the columns of the table are the columns among them, in
  that order. The equations hold of every schema and every stack that holds the call for
  it, the mixins being resolved in the frames that this call leaves; where the resolution
  of a mixin exhausts the stack, neither side returns. No call returns on a stack without
  a frame.
\<close>

theorem mixin_flattening:
  "resolveMixins (Suc stack) schema ctx =
     map_option (\<lambda>parts. concat parts @ sd_members schema)
       (those (map (mixinMembers stack ctx) (sd_mixins schema))) \<and>
   map_option rs_columns (resolveSchema (Suc stack) schema tn ctx) =
     map_option (\<lambda>parts. concat (map columnsOf parts) @ columnsOf (sd_members schema))
       (those (map (mixinMembers stack ctx) (sd_mixins schema))) \<and>
   resolveMixins 0 schema ctx = None"
  by (simp add: resolveSchema_def resolveMixins_flatten option.map_comp comp_def
      columnsOf_append columnsOf_concat)
    (simp add: resolveMixins_def)

theorem mixin_flattening_witness:
  "resolveMixins (Suc (Suc 0)) Users mixinCtx =
     Some [plainColumn ''created_at'' ''timestamptz'', idColumn] \<and>
   generate (Suc (Suc 0)) mixinProgram =
     Some (''-- Generated SQL from Schema DSL'' @ nl @ nl @
           ''CREATE TABLE users ('' @ nl @
           ''    created_at TIMESTAMPTZ,'' @ nl @
           ''    id SERIAL PRIMARY KEY'' @ nl @
           '');'' @ nl)"
proof -
  have m: "those (map (mixinMembers (Suc 0) mixinCtx) (sd_mixins Users)) =
      Some [[plainColumn ''created_at'' ''timestamptz'']]"
    by code_simp
  have "resolveMixins (Suc (Suc 0)) Users mixinCtx =
      Some [plainColumn ''created_at'' ''timestamptz'', idColumn]"
    using mixin_flattening [of "Suc 0" Users mixinCtx] unfolding m by (simp add: Users_def)
  moreover have "generate (Suc (Suc 0)) mixinProgram =
     Some (''-- Generated SQL from Schema DSL'' @ nl @ nl @
           ''CREATE TABLE users ('' @ nl @
           ''    created_at TIMESTAMPTZ,'' @ nl @
           ''    id SERIAL PRIMARY KEY'' @ nl @
           '');'' @ nl)"
    by code_simp
  ultimately show ?thesis by blast
qed

section \<open>Termination of mixin resolution\<close>














lemma generateTableSql_schemas: "schemas (generateTableSql r c) = schemas c"
  by (simp add: generateTableSql_def Let_def)

lemma generateEnumSql_schemas: "schemas (generateEnumSql e c) = schemas c"
  by (simp add: generateEnumSql_def Let_def)

lemma foldl_generateEnumSql_schemas:
  "schemas (foldl (\<lambda>c e. generateEnumSql e c) c es) = schemas c"
  by (induction es arbitrary: c) (simp_all add: generateEnumSql_schemas)

lemma bindTypeParams_schemas: "schemas (bindTypeParams zs c) = schemas c"
  by (induction zs arbitrary: c) auto

lemma bindTargets_schemas: "schemas (snd (bindTargets zs st)) = schemas (snd st)"
proof (induction zs arbitrary: st)
  case Nil
  then show ?case by simp
next
  case (Cons z zs)
  obtain t s where z: "z = (t, s)" by (cases z)
  obtain m c where st: "st = (m, c)" by (cases st)
  show ?case using Cons z st by simp
qed

lemma generateTableSql_concepts: "concepts (generateTableSql r c) = concepts c"
  by (simp add: generateTableSql_def Let_def)

lemma generateEnumSql_concepts: "concepts (generateEnumSql e c) = concepts c"
  by (simp add: generateEnumSql_def Let_def)

lemma foldl_generateEnumSql_concepts:
  "concepts (foldl (\<lambda>c e. generateEnumSql e c) c es) = concepts c"
  by (induction es arbitrary: c) (simp_all add: generateEnumSql_concepts)

lemma bindTypeParams_concepts: "concepts (bindTypeParams zs c) = concepts c"
  by (induction zs arbitrary: c) auto

lemma bindTargets_concepts: "concepts (snd (bindTargets zs st)) = concepts (snd st)"
proof (induction zs arbitrary: st)
  case Nil
  then show ?case by simp
next
  case (Cons z zs)
  obtain t s where z: "z = (t, s)" by (cases z)
  obtain m c where st: "st = (m, c)" by (cases st)
  show ?case using Cons z st by simp
qed

text \<open>The tables of the concepts and schemas are the same behind an instantiation.\<close>

lemma generateConceptTables_tables:
  "generateConceptTables stack ss m c = Some c' \<Longrightarrow>
   concepts c' = concepts c \<and> schemas c' = schemas c"
proof (induction ss arbitrary: c)
  case Nil
  then show ?case by simp
next
  case (Cons s ss)
  show ?case
  proof (cases "mapGet m (sd_name s)")
    case None
    then show ?thesis using Cons by simp
  next
    case (Some mapping)
    then obtain r where g: "generateConceptTables stack ss m (generateTableSql r c) = Some c'"
      using Cons.prems by (auto simp: bind_eq_Some_conv)
    show ?thesis
      using Cons.IH [OF g] by (simp add: generateTableSql_concepts generateTableSql_schemas)
  qed
qed

lemma processInstantiation_tables:
  assumes "processInstantiation stack d c = Some c'"
  shows "concepts c' = concepts c \<and> schemas c' = schemas c"
proof (cases "mapGet (concepts c) (in_conceptName d)")
  case None
  then show ?thesis
    using assms
    by (auto simp: processInstantiation_def Let_def generateTableSql_concepts
        generateTableSql_schemas split: option.splits list.splits)
next
  case (Some concept)
  let ?c1 = "bindTypeParams (zip (cd_typeParams concept) (in_typeArgs d)) (c\<lparr>templateSubs := []\<rparr>)"
  let ?ss = "schemasOf (cd_members concept)"
  obtain m c2 where b: "bindTargets (zip (in_targets d) ?ss) ([], ?c1) = (m, c2)"
    by (cases "bindTargets (zip (in_targets d) ?ss) ([], ?c1)")
  have e: "concepts c2 = concepts c" "schemas c2 = schemas c"
    using bindTargets_concepts [of "zip (in_targets d) ?ss" "([], ?c1)"]
      bindTargets_schemas [of "zip (in_targets d) ?ss" "([], ?c1)"] b
    by (simp_all add: bindTypeParams_concepts bindTypeParams_schemas)
  have g: "generateConceptTables stack ?ss m
             (foldl (\<lambda>c e. generateEnumSql e c) c2 (enumsOf (cd_members concept))) = Some c'"
    using assms Some b by (simp add: processInstantiation_def Let_def)
  show ?thesis
    using generateConceptTables_tables [OF g] e
    by (simp add: foldl_generateEnumSql_concepts foldl_generateEnumSql_schemas)
qed













section \<open>Unknown instantiations in a program\<close>

text \<open>The names pass one collects: those of the top-level concepts and schemas.\<close>

fun declaredNames :: "GSQLProgram \<Rightarrow> string list" where
  "declaredNames [] = []"
| "declaredNames (TConceptDecl d # ds) = cd_name d # declaredNames ds"
| "declaredNames (TSchemaDecl d # ds) = sd_name d # declaredNames ds"
| "declaredNames (_ # ds) = declaredNames ds"

lemma declaredNames_append: "declaredNames (xs @ ys) = declaredNames xs @ declaredNames ys"
  by (induction xs rule: declaredNames.induct) simp_all

lemma collectDefinitions_skips_instantiation:
  "collectDefinitions (ds1 @ TInstantiation d # ds2) ctx = collectDefinitions (ds1 @ ds2) ctx"
  by (induction ds1 ctx rule: collectDefinitions.induct) simp_all

lemma collectDefinitions_undeclared:
  "name \<notin> set (declaredNames ds) \<Longrightarrow>
   mapGet (concepts (collectDefinitions ds ctx)) name = mapGet (concepts ctx) name \<and>
   mapGet (schemas (collectDefinitions ds ctx)) name = mapGet (schemas ctx) name"
  by (induction ds ctx rule: collectDefinitions.induct) (auto simp: mapGet_def map_of_mapSet)

lemma processDeclaration_undeclared:
  assumes "processDeclaration stack d c = Some c'" and "name \<notin> set (declaredNames [d])"
  shows "mapGet (concepts c') name = mapGet (concepts c) name \<and>
         mapGet (schemas c') name = mapGet (schemas c) name"
proof (cases d)
  case (TInstantiation i)
  then show ?thesis using assms processInstantiation_tables [of stack i c c'] by simp
next
  case (TSchemaDecl s)
  then show ?thesis
    using assms by (auto simp: processStandaloneSchema_def mapGet_def map_of_mapSet)
next
  case (TEnumDecl e)
  then show ?thesis
    using assms by (auto simp: processEnum_def generateEnumSql_concepts generateEnumSql_schemas)
qed (use assms in \<open>auto simp: processExtension_def processFunction_def
      processPerInstanceIndex_def Let_def\<close>)

lemma processDeclarations_skips_unknown:
  assumes "in_conceptName decl \<notin> set (declaredNames ds1)"
    and "mapGet (concepts c) (in_conceptName decl) = None"
    and "mapGet (schemas c) (in_conceptName decl) = None"
  shows "processDeclarations stack (ds1 @ TInstantiation decl # ds2) c =
         processDeclarations stack (ds1 @ ds2) c"
  using assms
proof (induction ds1 arbitrary: c)
  case Nil
  then show ?case by (simp add: processInstantiation_def)
next
  case (Cons d ds1)
  have n: "in_conceptName decl \<notin> set (declaredNames [d])"
    "in_conceptName decl \<notin> set (declaredNames ds1)"
    using Cons.prems(1) declaredNames_append [of "[d]" ds1] by auto
  show ?case
  proof (cases "processDeclaration stack d c")
    case None
    then show ?thesis by simp
  next
    case (Some c')
    have "mapGet (concepts c') (in_conceptName decl) = None"
      "mapGet (schemas c') (in_conceptName decl) = None"
      using processDeclaration_undeclared [OF Some n(1)] Cons.prems(2,3) by simp_all
    from Cons.IH [OF n(2) this] show ?thesis using Some by simp
  qed
qed

text \<open>
  An instantiation whose name is that of no top-level concept or schema of the program
  leaves no trace in the output: the program generates what it generates without it.
\<close>

lemma unknown_instantiation_emits_nothing:
  assumes "in_conceptName decl \<notin> set (declaredNames (ds1 @ ds2))"
  shows "generate stack (ds1 @ TInstantiation decl # ds2) = generate stack (ds1 @ ds2)"
proof -
  let ?c = "collectDefinitions (ds1 @ ds2) createContext"
  have "mapGet (concepts ?c) (in_conceptName decl) = None"
    "mapGet (schemas ?c) (in_conceptName decl) = None"
    using collectDefinitions_undeclared [OF assms, of createContext]
    by (simp_all add: createContext_def mapGet_def)
  moreover have "in_conceptName decl \<notin> set (declaredNames ds1)"
    using assms by (simp add: declaredNames_append)
  ultimately show ?thesis
    by (simp add: generate_def collectDefinitions_skips_instantiation
        processDeclarations_skips_unknown)
qed

section \<open>The lexer\<close>

text \<open>
  The regular expressions of \<open>lexer.ts\<close>. A keyword or a punctuation mark is a literal
  text, a data type a literal text matched without regard to case; every other expression
  has a constructor of its own. \<open>matchPattern p s\<close> is the length of the match of the
  expression at the start of \<open>s\<close>, if there is one.
\<close>

datatype Pattern =
  Lit string
| LitCI string
| WhiteSpaceP
| LineCommentP
| BlockCommentP
| DoublePrecisionP
| StringLiteralP
| NumberLiteralP
| BooleanP
| TemplateIdentifierP
| IdentifierP

text \<open>
  The class \<open>\s\<close> on the code units below 256: the characters from the tab to the carriage
  return, the space and the no-break space.
\<close>

definition isSpace :: "char \<Rightarrow> bool" where
  "isSpace c =
     ((9 \<le> (of_char c :: nat) \<and> (of_char c :: nat) \<le> 13) \<or> (of_char c :: nat) = 32 \<or>
      (of_char c :: nat) = 160)"

definition isIdentStart :: "char \<Rightarrow> bool" where
  "isIdentStart c = (isUpper c \<or> isLower c \<or> c = CHR ''_'')"

text \<open>\<open>[\s\S]*?\*\/\<close>: the length of the shortest text that ends with \<open>*/\<close>.\<close>

fun blockCommentEnd :: "string \<Rightarrow> nat option" where
  "blockCommentEnd [] = None"
| "blockCommentEnd (c # cs) =
     (if startsWith (c # cs) ''*/'' then Some 2 else map_option Suc (blockCommentEnd cs))"

text \<open>
  \<open>(?:[^'\\]|\\.)*'\<close>: characters other than the quote and the backslash, or a backslash
  and a character that is no line terminator, up to the closing quote.
\<close>

fun stringLiteralEnd :: "string \<Rightarrow> nat option" where
  "stringLiteralEnd [] = None"
| "stringLiteralEnd [c] = (if c = CHR 0x27 then Some 1 else None)"
| "stringLiteralEnd (c # e # cs) =
     (if c = CHR 0x27 then Some 1
      else if c = CHR 0x5C then
        (if e = CHR 0x0A \<or> e = CHR 0x0D then None
         else map_option (\<lambda>n. n + 2) (stringLiteralEnd cs))
      else map_option Suc (stringLiteralEnd (e # cs)))"

definition matchNumber :: "string \<Rightarrow> nat option" where
  "matchNumber s =
     (let sign = (if startsWith s ''-'' then 1 else 0);
          ds = takeWhile isDigit (drop sign s);
          rest = dropWhile isDigit (drop sign s);
          frac = takeWhile isDigit (drop 1 rest)
      in if ds = [] then None
         else if startsWith rest ''.'' \<and> frac \<noteq> [] then Some (sign + length ds + 1 + length frac)
         else Some (sign + length ds))"

fun matchPattern :: "Pattern \<Rightarrow> string \<Rightarrow> nat option" where
  "matchPattern (Lit k) s = (if startsWith s k then Some (length k) else None)"
| "matchPattern (LitCI k) s =
     (if startsWith (toLowerCase s) k then Some (length k) else None)"
| "matchPattern WhiteSpaceP s =
     (if takeWhile isSpace s = [] then None else Some (length (takeWhile isSpace s)))"
| "matchPattern LineCommentP s =
     (if startsWith s ''//'' then Some (2 + length (takeWhile (\<lambda>c. c \<noteq> CHR 0x0A) (drop 2 s)))
      else None)"
| "matchPattern BlockCommentP s =
     (if startsWith s ''/*'' then map_option (\<lambda>n. n + 2) (blockCommentEnd (drop 2 s)) else None)"
| "matchPattern DoublePrecisionP s =
     (let ws = takeWhile isSpace (drop 6 s) in
      if startsWith (toLowerCase s) ''double'' \<and> ws \<noteq> [] \<and>
         startsWith (toLowerCase (dropWhile isSpace (drop 6 s))) ''precision''
      then Some (6 + length ws + 9) else None)"
| "matchPattern StringLiteralP s =
     (case s of
        [] \<Rightarrow> None
      | q # rest \<Rightarrow> if q = CHR 0x27 then map_option Suc (stringLiteralEnd rest) else None)"
| "matchPattern NumberLiteralP s = matchNumber s"
| "matchPattern BooleanP s =
     (if startsWith s ''true'' then Some 4 else if startsWith s ''false'' then Some 5 else None)"
| "matchPattern TemplateIdentifierP s =
     (case s of
        b # c # rest \<Rightarrow>
          if b = CHR ''{'' \<and> isIdentStart c \<and> startsWith (dropWhile isWord rest) ''}''
          then Some (length (takeWhile isWord rest) + 3) else None
      | _ \<Rightarrow> None)"
| "matchPattern IdentifierP s =
     (case s of
        [] \<Rightarrow> None
      | c # rest \<Rightarrow> if isIdentStart c then Some (Suc (length (takeWhile isWord rest))) else None)"

text \<open>
  A token type of \<open>createToken\<close>: its name, its pattern, the token type of its
  \<open>longer_alt\<close> if it declares one, and whether its group is \<open>Lexer.SKIPPED\<close>.
\<close>

datatype TokenType =
  TokenType (tt_name: string) (tt_pattern: Pattern) (tt_longer_alt: "TokenType option")
    (tt_skipped: bool)

definition WhiteSpace :: TokenType where
  "WhiteSpace = TokenType ''WhiteSpace'' WhiteSpaceP None True"

definition LineComment :: TokenType where
  "LineComment = TokenType ''LineComment'' LineCommentP None True"

definition BlockComment :: TokenType where
  "BlockComment = TokenType ''BlockComment'' BlockCommentP None True"

definition Identifier :: TokenType where
  "Identifier = TokenType ''Identifier'' IdentifierP None False"

definition TemplateIdentifier :: TokenType where
  "TemplateIdentifier = TokenType ''TemplateIdentifier'' TemplateIdentifierP None False"

text \<open>
  Every keyword is \<open>createToken({ name, pattern: /text/, longer_alt: Identifier })\<close>, every
  data type the same with the flag \<open>i\<close>, every punctuation mark a pattern alone.
\<close>

definition keyword :: "string \<Rightarrow> string \<Rightarrow> TokenType" where
  "keyword name text = TokenType name (Lit text) (Some Identifier) False"

definition dataType :: "string \<Rightarrow> string \<Rightarrow> TokenType" where
  "dataType name text = TokenType name (LitCI text) (Some Identifier) False"

definition punctuation :: "string \<Rightarrow> string \<Rightarrow> TokenType" where
  "punctuation name text = TokenType name (Lit text) None False"

definition DoublePrecision :: TokenType where
  "DoublePrecision = TokenType ''DoublePrecision'' DoublePrecisionP (Some Identifier) False"

definition StringLiteral :: TokenType where
  "StringLiteral = TokenType ''StringLiteral'' StringLiteralP None False"

definition NumberLiteral :: TokenType where
  "NumberLiteral = TokenType ''NumberLiteral'' NumberLiteralP None False"

definition BooleanLiteral :: TokenType where
  "BooleanLiteral = TokenType ''BooleanLiteral'' BooleanP (Some Identifier) False"

definition NullLiteral :: TokenType where
  "NullLiteral = TokenType ''NullLiteral'' (LitCI ''null'') (Some Identifier) False"

text \<open>The token types in the order of the array \<open>allTokens\<close>.\<close>

definition keywordTokens :: "TokenType list" where
  "keywordTokens =
     [
      keyword ''Concept'' ''concept'', keyword ''Schema'' ''schema'', keyword ''Mixin'' ''mixin'',
      keyword ''Enum'' ''enum'', keyword ''Extension'' ''extension'', keyword ''Function'' ''function'',
      keyword ''Func'' ''func'', keyword ''Trigger'' ''trigger'', keyword ''Index'' ''index'',
      keyword ''Check'' ''check'', keyword ''Before'' ''before'', keyword ''After'' ''after'',
      keyword ''Ondelete'' ''ondelete'', keyword ''On'' ''on'', keyword ''Each'' ''each'',
      keyword ''Row'' ''row'', keyword ''Statement'' ''statement'', keyword ''Execute'' ''execute'',
      keyword ''Unique'' ''unique'', keyword ''Gin'' ''gin'', keyword ''Gist'' ''gist'',
      keyword ''Btree'' ''btree'', keyword ''Hash'' ''hash'', keyword ''Pkey'' ''pkey'',
      keyword ''Nonull'' ''nonull'', keyword ''Default'' ''default'', keyword ''Ref'' ''ref'',
      keyword ''SetDefault'' ''setdefault'', keyword ''SetNull'' ''setnull'', keyword ''Cascade'' ''cascade'',
      keyword ''Restrict'' ''restrict'', keyword ''NoAction'' ''noaction'', keyword ''Update'' ''update'',
      keyword ''Insert'' ''insert'', keyword ''Delete'' ''delete'', keyword ''Return'' ''return'',
      keyword ''New'' ''NEW'', keyword ''Old'' ''OLD'' ]"

definition dataTypeTokens :: "TokenType list" where
  "dataTypeTokens =
     [ DoublePrecision,
      dataType ''Timestamptz'' ''timestamptz'', dataType ''Timestamp'' ''timestamp'', dataType ''BigSerial'' ''bigserial'',
      dataType ''Serial'' ''serial'', dataType ''SmallInt'' ''smallint'', dataType ''Bigint'' ''bigint'',
      dataType ''Integer'' ''integer'', dataType ''Varchar'' ''varchar'', dataType ''Char'' ''char'',
      dataType ''Text'' ''text'', dataType ''Boolean'' ''boolean'', dataType ''Date'' ''date'',
      dataType ''Time'' ''time'', dataType ''Jsonb'' ''jsonb'', dataType ''Json'' ''json'',
      dataType ''Uuid'' ''uuid'', dataType ''Inet'' ''inet'', dataType ''Citext'' ''citext'',
      dataType ''Decimal'' ''decimal'', dataType ''Numeric'' ''numeric'', dataType ''Real'' ''real'',
      dataType ''Bytea'' ''bytea'' ]"

definition punctuationTokens :: "TokenType list" where
  "punctuationTokens =
     [
      punctuation ''LBrace'' ''{'', punctuation ''RBrace'' ''}'', punctuation ''LParen'' ''('',
      punctuation ''RParen'' '')'', punctuation ''LBracket'' ''['', punctuation ''RBracket'' '']'',
      punctuation ''LAngle'' ''<'', punctuation ''RAngle'' ''>'', punctuation ''Semicolon'' '';'',
      punctuation ''Comma'' '','', punctuation ''Dot'' ''.'', punctuation ''Equals'' ''='' ]"

definition allTokens :: "TokenType list" where
  "allTokens =
     [WhiteSpace, LineComment, BlockComment,
      punctuation ''Arrow'' ''->'', punctuation ''DoubleColon'' ''::''] @
     keywordTokens @ dataTypeTokens @
     [StringLiteral, NumberLiteral, BooleanLiteral, NullLiteral, TemplateIdentifier, Identifier] @
     punctuationTokens"

text \<open>
  Modelled from the spec: the scanning loop of the lexer is chevrotain's \<open>Lexer\<close>, a
  library that is not among the sources. At each position the patterns are tried in the
  fixed order of \<open>allTokens\<close> and the first that matches gives the token; when its token
  type declares a fallback (\<open>longer_alt\<close>) whose pattern matches a longer text at the same
  position, the token is reclassified as the fallback's. A token of a skipped group is
  left out of the output. Where no pattern matches, the characters up to the next
  position at which one does are dropped and reported as one error. The library refuses,
  when the lexer is built, a pattern that can match the empty text; the loop below stops
  on such a match instead.
\<close>

fun firstMatch :: "TokenType list \<Rightarrow> string \<Rightarrow> (TokenType \<times> nat) option" where
  "firstMatch [] s = None"
| "firstMatch (t # ts) s =
     (case matchPattern (tt_pattern t) s of
        None \<Rightarrow> firstMatch ts s
      | Some n \<Rightarrow> Some (t, n))"

definition longerAlt :: "TokenType \<Rightarrow> nat \<Rightarrow> string \<Rightarrow> TokenType \<times> nat" where
  "longerAlt t n s =
     (case tt_longer_alt t of
        None \<Rightarrow> (t, n)
      | Some alt \<Rightarrow>
          (case matchPattern (tt_pattern alt) s of
             None \<Rightarrow> (t, n)
           | Some m \<Rightarrow> if n < m then (alt, m) else (t, n)))"

definition matchAt :: "TokenType list \<Rightarrow> string \<Rightarrow> (TokenType \<times> nat) option" where
  "matchAt toks s = map_option (\<lambda>(t, n). longerAlt t n s) (firstMatch toks s)"

record Token =
  tk_type :: TokenType
  tk_image :: string
  tk_startOffset :: nat

record LexError =
  le_offset :: nat
  le_length :: nat

fun unmatched :: "TokenType list \<Rightarrow> string \<Rightarrow> nat" where
  "unmatched toks [] = 0"
| "unmatched toks (c # cs) = (if matchAt toks (c # cs) = None then Suc (unmatched toks cs) else 0)"

function scan :: "TokenType list \<Rightarrow> nat \<Rightarrow> string \<Rightarrow> Token list \<times> LexError list" where
  "scan toks offset [] = ([], [])"
| "scan toks offset (c # cs) =
     (case matchAt toks (c # cs) of
        None \<Rightarrow>
          (let k = Suc (unmatched toks cs) in
           case scan toks (offset + k) (drop k (c # cs)) of
             (tokens, errors) \<Rightarrow> (tokens, \<lparr> le_offset = offset, le_length = k \<rparr> # errors))
      | Some (t, n) \<Rightarrow>
          if n = 0 then ([], [])
          else
            (case scan toks (offset + n) (drop n (c # cs)) of
               (tokens, errors) \<Rightarrow>
                 (if tt_skipped t then tokens
                  else \<lparr> tk_type = t, tk_image = take n (c # cs), tk_startOffset = offset \<rparr> # tokens,
                  errors)))"
  by pat_completeness auto
termination
  by (relation "measure (\<lambda>(toks, offset, s). length s)") auto

definition tokenize :: "string \<Rightarrow> Token list \<times> LexError list" where
  "tokenize input = scan allTokens 0 input"


text \<open>
  The token types that declare the identifier as their fallback: every keyword, every data
  type and the literals \<open>true\<close>, \<open>false\<close> and \<open>null\<close>. A word is reserved when the pattern
  of one of them matches all of it.
\<close>

definition fallbackTokens :: "TokenType list" where
  "fallbackTokens = filter (\<lambda>t. tt_longer_alt t = Some Identifier) allTokens"

definition reservedWord :: "string \<Rightarrow> bool" where
  "reservedWord w =
     list_ex (\<lambda>t. matchPattern (tt_pattern t) w = Some (length w)) fallbackTokens"

text \<open>
  The patterns that cannot match at a letter or an underscore, and the patterns of the
  token types with a fallback.
\<close>

fun neverIdent :: "Pattern \<Rightarrow> bool" where
  "neverIdent (Lit k) = (case k of [] \<Rightarrow> False | c # _ \<Rightarrow> \<not> isIdentStart c)"
| "neverIdent WhiteSpaceP = True"
| "neverIdent LineCommentP = True"
| "neverIdent BlockCommentP = True"
| "neverIdent StringLiteralP = True"
| "neverIdent NumberLiteralP = True"
| "neverIdent TemplateIdentifierP = True"
| "neverIdent _ = False"

fun fallbackPattern :: "Pattern \<Rightarrow> bool" where
  "fallbackPattern (Lit k) = True"
| "fallbackPattern (LitCI k) = True"
| "fallbackPattern DoublePrecisionP = True"
| "fallbackPattern BooleanP = True"
| "fallbackPattern _ = False"

definition wordToken :: "TokenType \<Rightarrow> bool" where
  "wordToken t =
     (neverIdent (tt_pattern t) \<or>
      (\<not> tt_skipped t \<and>
       (t = Identifier \<or> (tt_longer_alt t = Some Identifier \<and> fallbackPattern (tt_pattern t)))))"

text \<open>
  The rest of the input behind a word does not go on with a word character. \<open>wordText\<close>
  holds of a pattern whose literal text consists of word characters; \<open>lowMatch\<close> says that
  the literal text of a pattern, in lower case, is a prefix of a lower-case word.
\<close>

definition wordEnds :: "string \<Rightarrow> bool" where
  "wordEnds rest = (case rest of [] \<Rightarrow> True | r # _ \<Rightarrow> \<not> isWord r)"

fun wordText :: "Pattern \<Rightarrow> bool" where
  "wordText (Lit k) = list_all isWord k"
| "wordText (LitCI k) = list_all isWord k"
| "wordText _ = True"

fun lowMatch :: "Pattern \<Rightarrow> string \<Rightarrow> bool" where
  "lowMatch (Lit k) lw = startsWith lw (toLowerCase k)"
| "lowMatch (LitCI k) lw = startsWith lw k"
| "lowMatch _ lw = False"

section \<open>The compiler\<close>

text \<open>
  The results of \<open>types.ts\<close>. A location is kept as its start and end offsets; lines and
  columns are left out.
\<close>

datatype Severity = SeverityError | SeverityWarning

record CompileError =
  ce_message :: string
  ce_location :: "(nat \<times> nat) option"
  ce_severity :: Severity

record ParseResult =
  pr_ast :: "GSQLProgram option"
  pr_errors :: "CompileError list"

record CompileResult =
  cr_success :: bool
  cr_sql :: "string option"
  cr_errors :: "CompileError list"
  cr_ast :: "GSQLProgram option"

text \<open>
  Modelled from the spec: the parser is an instance of chevrotain's \<open>CstParser\<close>, a library
  that is not among the sources, kept in the module-level constant \<open>parserInstance\<close>.
  Assigning its \<open>input\<close> resets the instance, errors included; calling its \<open>program\<close> rule
  parses the tokens of \<open>input\<close>, returns the syntax tree and leaves the syntax errors in
  \<open>errors\<close>. What the grammar makes of a token list, and the text of the lexer's error
  messages, are parameters.
\<close>

record ParserError =
  pe_message :: string
  pe_startOffset :: nat
  pe_endOffset :: "nat option"

record ParserInstance =
  p_input :: "Token list"
  p_errors :: "ParserError list"

record 'cst Chevrotain =
  lexerMessage :: "LexError \<Rightarrow> string"
  programRule :: "Token list \<Rightarrow> 'cst \<times> ParserError list"

definition setInput :: "Token list \<Rightarrow> ParserInstance \<Rightarrow> ParserInstance" where
  "setInput tokens inst = \<lparr> p_input = tokens, p_errors = [] \<rparr>"

definition runProgram ::
  "'cst Chevrotain \<Rightarrow> ParserInstance \<Rightarrow> 'cst \<times> ParserInstance" where
  "runProgram lib inst =
     (case programRule lib (p_input inst) of
        (cst, errs) \<Rightarrow> (cst, inst\<lparr>p_errors := p_errors inst @ errs\<rparr>))"

definition lexerError :: "'cst Chevrotain \<Rightarrow> LexError \<Rightarrow> CompileError" where
  "lexerError lib e =
     \<lparr> ce_message = lexerMessage lib e, ce_location = Some (le_offset e, le_offset e),
       ce_severity = SeverityError \<rparr>"

definition parserError :: "ParserError \<Rightarrow> CompileError" where
  "parserError e =
     \<lparr> ce_message = pe_message e,
       ce_location =
         Some (pe_startOffset e,
               (case pe_endOffset e of None \<Rightarrow> pe_startOffset e | Some n \<Rightarrow> n)),
       ce_severity = SeverityError \<rparr>"

text \<open>
  \<open>parse\<close> and \<open>compile\<close> thread the parser instance, the one state that outlives a call.
  The visitor that builds the tree of declarations from the syntax tree is a parameter.
\<close>

definition parse ::
  "'cst Chevrotain \<Rightarrow> ('cst \<Rightarrow> GSQLProgram) \<Rightarrow> string \<Rightarrow> ParserInstance \<Rightarrow>
   ParseResult \<times> ParserInstance" where
  "parse lib visit source inst =
     (case tokenize source of
        (tokens, lexErrors) \<Rightarrow>
          (let errors = map (lexerError lib) lexErrors in
           if errors \<noteq> [] then (\<lparr> pr_ast = None, pr_errors = errors \<rparr>, inst)
           else
             (case runProgram lib (setInput tokens inst) of
                (cst, inst') \<Rightarrow>
                  (let errors' = errors @ map parserError (p_errors inst') in
                   if errors' \<noteq> [] then (\<lparr> pr_ast = None, pr_errors = errors' \<rparr>, inst')
                   else (\<lparr> pr_ast = Some (visit cst), pr_errors = errors' \<rparr>, inst')))))"

text \<open>
  How a call of a generation pass ends: it returns, or it throws, and then
  \<open>Thrown m\<close> carries the text \<open>error instanceof Error ? error.message : String(error)\<close>.
  \<open>compile\<close> is modelled for every pass it may be given; a pass that never returns has
  no completion, and then \<open>compile\<close> has no result.
\<close>

datatype 'a completion = Returned 'a | Thrown string

definition compile ::
  "'cst Chevrotain \<Rightarrow> ('cst \<Rightarrow> GSQLProgram) \<Rightarrow> (GSQLProgram \<Rightarrow> string completion option) \<Rightarrow>
   string \<Rightarrow> ParserInstance \<Rightarrow> (CompileResult \<times> ParserInstance) option" where
  "compile lib visit gen source inst =
     (case parse lib visit source inst of
        (parseResult, inst') \<Rightarrow>
          if pr_errors parseResult \<noteq> [] then
            Some (\<lparr> cr_success = False, cr_sql = None, cr_errors = pr_errors parseResult,
                     cr_ast = pr_ast parseResult \<rparr>, inst')
          else
            (case pr_ast parseResult of
               None \<Rightarrow>
                 Some (\<lparr> cr_success = False, cr_sql = None,
                          cr_errors =
                            [\<lparr> ce_message = ''Failed to parse source code'', ce_location = None,
                               ce_severity = SeverityError \<rparr>],
                          cr_ast = None \<rparr>, inst')
             | Some ast \<Rightarrow>
                 (case gen ast of
                    None \<Rightarrow> None
                  | Some (Returned sql) \<Rightarrow>
                      Some (\<lparr> cr_success = True, cr_sql = Some sql, cr_errors = [],
                               cr_ast = Some ast \<rparr>, inst')
                  | Some (Thrown message) \<Rightarrow>
                      Some (\<lparr> cr_success = False, cr_sql = None,
                               cr_errors =
                                 [\<lparr> ce_message = ''Code generation failed: '' @ message,
                                    ce_location = None, ce_severity = SeverityError \<rparr>],
                               cr_ast = Some ast \<rparr>, inst'))))"

text \<open>
  The generation pass of this development on a stack of \<open>stack\<close> frames: it returns the
  text of \<open>generate\<close>, or it throws the \<open>RangeError\<close> of the exhausted stack, whose message
  is the engine's (\<open>Maximum call stack size exceeded\<close> in V8) and a parameter here. It
  always does the one or the other.
\<close>

definition generation :: "string \<Rightarrow> nat \<Rightarrow> GSQLProgram \<Rightarrow> string completion option" where
  "generation overflow stack ast =
     Some (case generate stack ast of None \<Rightarrow> Thrown overflow | Some sql \<Rightarrow> Returned sql)"

text \<open>A library, a visitor and a generation pass for the examples: the pass throws.\<close>

definition trivialLibrary :: "unit Chevrotain" where
  "trivialLibrary =
     \<lparr> lexerMessage = (\<lambda>e. ''unexpected character''), programRule = (\<lambda>tokens. ((), [])) \<rparr>"

definition emptyVisit :: "unit \<Rightarrow> GSQLProgram" where
  "emptyVisit cst = []"

definition failingGeneration :: "GSQLProgram \<Rightarrow> string completion option" where
  "failingGeneration ast = Some (Thrown ''boom'')"

section \<open>Keywords and identifiers\<close>

lemma allTokens_wordToken: "list_all wordToken allTokens"
  by code_simp

lemma Identifier_in_allTokens: "Identifier \<in> set allTokens"
  by (simp add: allTokens_def)

lemma isIdentStart_facts:
  "isIdentStart c \<Longrightarrow> \<not> isSpace c \<and> \<not> isDigit c \<and> isWord c \<and> c \<noteq> CHR ''/'' \<and> c \<noteq> CHR 0x27 \<and>
     c \<noteq> CHR ''-'' \<and> c \<noteq> CHR ''{''"
  by (auto simp: isIdentStart_def isSpace_def isDigit_def isWord_def isUpper_def isLower_def)

lemma isWord_not_space: "isWord c \<Longrightarrow> \<not> isSpace c"
  by (auto simp: isSpace_def isDigit_def isWord_def isUpper_def isLower_def)

lemma neverIdent_no_match:
  "neverIdent p \<Longrightarrow> isIdentStart c \<Longrightarrow> matchPattern p (c # cs) = None"
proof (cases p)
  case (Lit k)
  assume "neverIdent p" "isIdentStart c"
  then show ?thesis using Lit by (cases k) auto
next
  case NumberLiteralP
  assume "isIdentStart c"
  then show ?thesis
    using NumberLiteralP isIdentStart_facts [of c] by (simp add: matchNumber_def)
qed (use isIdentStart_facts [of c] in \<open>auto split: list.splits\<close>)

lemma identifier_start: "isIdentifier (c # cs) \<Longrightarrow> isIdentStart c"
  by (auto simp: isIdentStart_def isWord_def)

lemma takeWhile_words: "list_all isWord cs \<Longrightarrow> takeWhile isWord cs = cs"
  by (induction cs) auto

lemma identifier_match: "isIdentifier w \<Longrightarrow> matchPattern IdentifierP w = Some (length w)"
  by (cases w) (auto simp: identifier_start takeWhile_words isIdentStart_def isWord_def)

lemma startsWith_length: "startsWith s k \<Longrightarrow> length k \<le> length s"
  by (induction s k rule: startsWith.induct) auto

lemma words_no_space: "list_all isWord xs \<Longrightarrow> takeWhile isSpace xs = []"
  by (cases xs) (auto dest: isWord_not_space)

lemma fallback_bound:
  assumes "isIdentifier w" and "fallbackPattern p" and "matchPattern p w = Some n"
  shows "n \<le> length w"
proof (cases p)
  case (Lit k)
  then show ?thesis using assms(3) startsWith_length [of w k] by (auto split: if_splits)
next
  case (LitCI k)
  then show ?thesis
    using assms(3) startsWith_length [of "toLowerCase w" k]
    by (auto simp: toLowerCase_def split: if_splits)
next
  case DoublePrecisionP
  have "list_all isWord w" using assms(1) by (cases w) auto
  then have "list_all isWord (drop 6 w)"
    by (simp add: list_all_iff) (meson in_set_dropD)
  then have "takeWhile isSpace (drop 6 w) = []" by (rule words_no_space)
  then show ?thesis using DoublePrecisionP assms(3) by (simp add: Let_def)
next
  case BooleanP
  then show ?thesis
    using assms(3) startsWith_length [of w "''true''"] startsWith_length [of w "''false''"]
    by (auto split: if_splits)
qed (use assms(2) in auto)

lemma firstMatch_mem:
  "firstMatch toks s = Some (t, n) \<Longrightarrow> t \<in> set toks \<and> matchPattern (tt_pattern t) s = Some n"
  by (induction toks) (auto split: option.splits)

lemma firstMatch_exists:
  "t \<in> set toks \<Longrightarrow> matchPattern (tt_pattern t) s = Some n \<Longrightarrow>
   \<exists>t' n'. firstMatch toks s = Some (t', n')"
  by (induction toks) (auto split: option.splits)

lemma word_matchAt:
  assumes w: "isIdentifier w"
  shows "\<exists>t. matchAt allTokens w = Some (t, length w) \<and> \<not> tt_skipped t \<and>
             (t = Identifier \<or>
              (t \<in> set fallbackTokens \<and> matchPattern (tt_pattern t) w = Some (length w)))"
proof -
  obtain c cs where cs: "w = c # cs" using w by (cases w) auto
  have st: "isIdentStart c" using w cs identifier_start by blast
  obtain t n where f: "firstMatch allTokens w = Some (t, n)"
    using firstMatch_exists [OF Identifier_in_allTokens, of w] identifier_match [OF w]
    by (auto simp: Identifier_def)
  then have m: "t \<in> set allTokens" "matchPattern (tt_pattern t) w = Some n"
    using firstMatch_mem by blast+
  have "wordToken t" using allTokens_wordToken m(1) by (simp add: list_all_iff)
  moreover have "\<not> neverIdent (tt_pattern t)"
    using neverIdent_no_match [OF _ st, of "tt_pattern t" cs] m(2) cs by auto
  ultimately have k: "\<not> tt_skipped t"
    "t = Identifier \<or> (tt_longer_alt t = Some Identifier \<and> fallbackPattern (tt_pattern t))"
    by (auto simp: wordToken_def)
  have i: "matchPattern (tt_pattern Identifier) w = Some (length w)"
    using identifier_match [OF w] by (simp add: Identifier_def)
  have ni: "tt_longer_alt Identifier = None" "\<not> tt_skipped Identifier"
    by (simp_all add: Identifier_def)
  show ?thesis
  proof (cases "t = Identifier")
    case True
    then have "n = length w" using m(2) i by simp
    then show ?thesis
      using f True ni by (simp add: matchAt_def longerAlt_def)
  next
    case False
    then have a: "tt_longer_alt t = Some Identifier" "fallbackPattern (tt_pattern t)"
      using k(2) by blast+
    have b: "n \<le> length w" using fallback_bound [OF w a(2) m(2)] .
    show ?thesis
    proof (cases "n < length w")
      case True
      then show ?thesis
        using f a(1) i ni by (simp add: matchAt_def longerAlt_def)
    next
      case False
      then have "n = length w" using b by simp
      moreover have "t \<in> set fallbackTokens" using m(1) a(1) by (simp add: fallbackTokens_def)
      ultimately show ?thesis
        using f a(1) i k(1) m(2) by (simp add: matchAt_def longerAlt_def)
    qed
  qed
qed

lemma word_tokenize:
  assumes w: "isIdentifier w"
  shows "\<exists>t. tokenize w = ([\<lparr> tk_type = t, tk_image = w, tk_startOffset = 0 \<rparr>], []) \<and>
             (t = Identifier \<or>
              (t \<in> set fallbackTokens \<and> matchPattern (tt_pattern t) w = Some (length w)))"
proof -
  obtain t where t: "matchAt allTokens w = Some (t, length w)" "\<not> tt_skipped t"
    "t = Identifier \<or> (t \<in> set fallbackTokens \<and> matchPattern (tt_pattern t) w = Some (length w))"
    using word_matchAt [OF w] by blast
  obtain c cs where cs: "w = c # cs" using w by (cases w) auto
  have "tokenize w = ([\<lparr> tk_type = t, tk_image = w, tk_startOffset = 0 \<rparr>], [])"
    using t(1,2) unfolding tokenize_def cs by simp
  then show ?thesis using t(3) by blast
qed


lemma fallbackTokens_wordText: "list_all (\<lambda>t. wordText (tt_pattern t)) fallbackTokens"
  by code_simp

lemma double_no_keyword_prefix:
  "list_all (\<lambda>t. \<not> lowMatch (tt_pattern t) ''double'' \<and> tt_pattern t \<noteq> BooleanP)
     (keywordTokens @ dataTypeTokens)"
  by code_simp

lemma keywords_have_fallback:
  "list_all (\<lambda>t. tt_longer_alt t = Some Identifier) (keywordTokens @ dataTypeTokens)"
  by code_simp

lemma keywords_are_fallback:
  assumes "k \<in> set (keywordTokens @ dataTypeTokens)"
  shows "k \<in> set fallbackTokens"
proof -
  have "set (keywordTokens @ dataTypeTokens) \<subseteq> set allTokens"
    unfolding allTokens_def set_append by blast
  then have "k \<in> set allTokens" using assms by blast
  moreover have "tt_longer_alt k = Some Identifier"
    using keywords_have_fallback assms unfolding list_all_iff by blast
  ultimately show ?thesis by (simp add: fallbackTokens_def)
qed

lemma startsWith_take: "startsWith s k = (take (length k) s = k)"
  by (induction s k rule: startsWith.induct) auto

lemma startsWith_map: "startsWith s k \<Longrightarrow> startsWith (map f s) (map f k)"
  by (induction s k rule: startsWith.induct) auto

lemma isWord_toLowerChar: "isWord (toLowerChar c) \<Longrightarrow> isWord c"
  by (auto simp: toLowerChar_def isWord_def split: if_splits)

lemma toLowerCase_append: "toLowerCase (xs @ ys) = toLowerCase xs @ toLowerCase ys"
  by (simp add: toLowerCase_def)

text \<open>
  A text of word characters that is a prefix of a word followed by a non-word character
  lies within the word.
\<close>

lemma prefix_within_word:
  assumes "startsWith (w @ rest) k" and "list_all isWord k" and "wordEnds rest"
  shows "length k \<le> length w \<and> startsWith w k"
proof (cases "length k \<le> length w")
  case True
  have "take (length k) (w @ rest) = k" using assms(1) unfolding startsWith_take .
  then have "take (length k) w = k" using True by simp
  then have "startsWith w k" unfolding startsWith_take .
  then show ?thesis using True by blast
next
  case False
  then have l: "length w < length k" by simp
  have t: "take (length k) (w @ rest) = k" using assms(1) unfolding startsWith_take .
  have "rest \<noteq> []"
  proof
    assume "rest = []"
    then have "length (take (length k) (w @ rest)) \<le> length w" by simp
    then show False unfolding t using l by simp
  qed
  then obtain r rs where r: "rest = r # rs" by (cases rest) auto
  have "k ! length w = take (length k) (w @ rest) ! length w" unfolding t ..
  also have "\<dots> = (w @ rest) ! length w" using l by (rule nth_take)
  also have "\<dots> = r" unfolding r by simp
  finally have "k ! length w = r" .
  moreover have "isWord (k ! length w)" using assms(2) l unfolding list_all_iff by simp
  ultimately have "isWord r" by simp
  then show ?thesis using assms(3) r by (simp add: wordEnds_def)
qed

lemma startsWith_extend: "startsWith w k \<Longrightarrow> startsWith (w @ rest) k"
  by (induction w k rule: startsWith.induct) auto

lemma startsWith_same_length: "startsWith s k \<Longrightarrow> length s = length k \<Longrightarrow> s = k"
  by (induction s k rule: startsWith.induct) auto

lemma wordEnds_lower: "wordEnds rest \<Longrightarrow> wordEnds (toLowerCase rest)"
proof (cases rest)
  case Nil
  then show ?thesis by (simp add: wordEnds_def toLowerCase_def)
next
  case (Cons r rs)
  assume "wordEnds rest"
  then have "\<not> isWord r" using Cons by (simp add: wordEnds_def)
  then have "\<not> isWord (toLowerChar r)" using isWord_toLowerChar [of r] by blast
  then show ?thesis using Cons by (simp add: wordEnds_def toLowerCase_def)
qed

lemma prefix_within_word_lower:
  assumes "startsWith (toLowerCase (w @ rest)) k" and "list_all isWord k" and "wordEnds rest"
  shows "length k \<le> length w \<and> startsWith (toLowerCase w) k"
proof -
  have a: "startsWith (toLowerCase w @ toLowerCase rest) k"
    using assms(1) unfolding toLowerCase_append .
  have l: "length (toLowerCase w) = length w" by (simp add: toLowerCase_def)
  show ?thesis
    using prefix_within_word [OF a assms(2) wordEnds_lower [OF assms(3)]] unfolding l .
qed

lemma fallback_within_word:
  assumes w: "isIdentifier w" and e: "wordEnds rest"
    and f: "fallbackPattern p" and t: "wordText p"
    and m: "matchPattern p (w @ rest) = Some n"
  shows "(n \<le> length w \<and> matchPattern p w = Some n) \<or>
         (p = DoublePrecisionP \<and> toLowerCase w = ''double'')"
proof (cases p)
  case (Lit k)
  have a: "startsWith (w @ rest) k" and n: "n = length k"
    using m Lit by (auto split: if_splits)
  have wk: "list_all isWord k" using t Lit by simp
  have b: "length k \<le> length w \<and> startsWith w k" using prefix_within_word [OF a wk e] .
  then have "matchPattern p w = Some n" unfolding Lit n by simp
  then show ?thesis using b n by blast
next
  case (LitCI k)
  have a: "startsWith (toLowerCase (w @ rest)) k" and n: "n = length k"
    using m LitCI by (auto split: if_splits)
  have wk: "list_all isWord k" using t LitCI by simp
  have b: "length k \<le> length w \<and> startsWith (toLowerCase w) k"
    using prefix_within_word_lower [OF a wk e] .
  then have "matchPattern p w = Some n" unfolding LitCI n by simp
  then show ?thesis using b n by blast
next
  case BooleanP
  have wt: "list_all isWord ''true''" "list_all isWord ''false''" by code_simp+
  show ?thesis
  proof (cases "startsWith (w @ rest) ''true''")
    case True
    then have n: "n = 4" using m BooleanP by simp
    have b: "length ''true'' \<le> length w \<and> startsWith w ''true''"
      using prefix_within_word [OF True wt(1) e] .
    then have "matchPattern p w = Some n" unfolding BooleanP n by simp
    then show ?thesis using b n by simp
  next
    case False
    then have a: "startsWith (w @ rest) ''false''" and n: "n = 5"
      using m BooleanP by (auto split: if_splits)
    have b: "length ''false'' \<le> length w \<and> startsWith w ''false''"
      using prefix_within_word [OF a wt(2) e] .
    have "\<not> startsWith w ''true''"
      using False startsWith_extend [of w "''true''" rest] by blast
    then have "matchPattern p w = Some n" unfolding BooleanP n using b by simp
    then show ?thesis using b n by simp
  qed
next
  case DoublePrecisionP
  have d: "startsWith (toLowerCase (w @ rest)) ''double''"
    and s: "takeWhile isSpace (drop 6 (w @ rest)) \<noteq> []"
    using m DoublePrecisionP by (auto simp: Let_def split: if_splits)
  have wd: "list_all isWord ''double''" by code_simp
  have a: "length ''double'' \<le> length w \<and> startsWith (toLowerCase w) ''double''"
    using prefix_within_word_lower [OF d wd e] .
  have "\<not> 6 < length w"
  proof
    assume l: "6 < length w"
    have ws: "list_all isWord w" using w by (cases w) auto
    obtain x xs where x: "drop 6 w = x # xs" using l by (cases "drop 6 w") auto
    then have "x \<in> set w" by (metis in_set_dropD list.set_intros(1))
    then have "\<not> isSpace x" using ws isWord_not_space unfolding list_all_iff by blast
    moreover have "drop 6 (w @ rest) = x # xs @ rest" using l x by simp
    ultimately show False using s by simp
  qed
  then have l: "length w = 6" using a by simp
  have "length (toLowerCase w) = length ''double''" using l by (simp add: toLowerCase_def)
  then have "toLowerCase w = ''double''" using a startsWith_same_length by blast
  then show ?thesis using DoublePrecisionP by blast
qed (use f in auto)

lemma lowMatch_of_match:
  assumes "matchPattern p w = Some n" and "p \<noteq> BooleanP" and "fallbackPattern p"
    and "isIdentifier w"
  shows "lowMatch p (toLowerCase w)"
proof (cases p)
  case (Lit k)
  then have "startsWith w k" using assms(1) by (auto split: if_splits)
  then show ?thesis using Lit startsWith_map [of w k toLowerChar] by (simp add: toLowerCase_def)
next
  case (LitCI k)
  then show ?thesis using assms(1) by (auto split: if_splits)
next
  case DoublePrecisionP
  have "list_all isWord w" using assms(4) by (cases w) auto
  then have "list_all isWord (drop 6 w)"
    by (simp add: list_all_iff) (meson in_set_dropD)
  then have "takeWhile isSpace (drop 6 w) = []" by (rule words_no_space)
  then show ?thesis using DoublePrecisionP assms(1) by (simp add: Let_def)
qed (use assms(2,3) in auto)

lemma identifier_match_within:
  assumes "isIdentifier w" and "wordEnds rest"
  shows "matchPattern IdentifierP (w @ rest) = Some (length w)"
proof -
  obtain c cs where cs: "w = c # cs" using assms(1) by (cases w) auto
  have "list_all isWord cs" using assms(1) cs by simp
  then have "takeWhile isWord (cs @ rest) = cs"
    using assms(2) by (cases rest) (simp_all add: takeWhile_all takeWhile_words wordEnds_def)
  then show ?thesis using assms(1) cs identifier_start [of c cs] by simp
qed

lemma keyword_prefix_matchAt:
  assumes w: "isIdentifier w"
    and k: "k \<in> set (keywordTokens @ dataTypeTokens)"
    and km: "matchPattern (tt_pattern k) w = Some n" and kn: "n < length w"
    and nr: "\<not> reservedWord w" and e: "wordEnds rest"
  shows "matchAt allTokens (w @ rest) = Some (Identifier, length w)"
proof -
  obtain c cs where cs: "w = c # cs" using w by (cases w) auto
  have st: "isIdentStart c" using w cs identifier_start by blast
  have i: "matchPattern (tt_pattern Identifier) (w @ rest) = Some (length w)"
    using identifier_match_within [OF w e] by (simp add: Identifier_def)
  obtain t n' where f: "firstMatch allTokens (w @ rest) = Some (t, n')"
    using firstMatch_exists [OF Identifier_in_allTokens i] by blast
  then have m: "t \<in> set allTokens" "matchPattern (tt_pattern t) (w @ rest) = Some n'"
    using firstMatch_mem by blast+
  have "wordToken t" using allTokens_wordToken m(1) by (simp add: list_all_iff)
  moreover have "\<not> neverIdent (tt_pattern t)"
    using neverIdent_no_match [OF _ st, of "tt_pattern t" "cs @ rest"] m(2) cs by auto
  ultimately have a: "t = Identifier \<or>
      (tt_longer_alt t = Some Identifier \<and> fallbackPattern (tt_pattern t))"
    by (auto simp: wordToken_def)
  have ni: "tt_longer_alt Identifier = None" by (simp add: Identifier_def)
  show ?thesis
  proof (cases "t = Identifier")
    case True
    then have "n' = length w" using m(2) i by simp
    then show ?thesis using f True ni by (simp add: matchAt_def longerAlt_def)
  next
    case False
    then have b: "tt_longer_alt t = Some Identifier" "fallbackPattern (tt_pattern t)"
      using a by blast+
    then have ft: "t \<in> set fallbackTokens" using m(1) by (simp add: fallbackTokens_def)
    then have wt: "wordText (tt_pattern t)"
      using fallbackTokens_wordText by (simp add: list_all_iff)
    have "n' < length w"
    proof (rule ccontr)
      assume g: "\<not> n' < length w"
      from fallback_within_word [OF w e b(2) wt m(2)]
      show False
      proof
        assume "n' \<le> length w \<and> matchPattern (tt_pattern t) w = Some n'"
        then have "matchPattern (tt_pattern t) w = Some (length w)" using g by simp
        then show False using nr ft by (auto simp: reservedWord_def list_ex_iff)
      next
        assume d: "tt_pattern t = DoublePrecisionP \<and> toLowerCase w = ''double''"
        have kd: "tt_pattern k \<noteq> BooleanP" "\<not> lowMatch (tt_pattern k) ''double''"
          using k double_no_keyword_prefix by (auto simp: list_all_iff)
        have "k \<in> set fallbackTokens" using keywords_are_fallback [OF k] .
        then have ka: "k \<in> set allTokens" "tt_longer_alt k = Some Identifier"
          by (simp_all add: fallbackTokens_def)
        have "wordToken k" using allTokens_wordToken ka(1) by (simp add: list_all_iff)
        moreover have "\<not> neverIdent (tt_pattern k)"
          using neverIdent_no_match [OF _ st, of "tt_pattern k" cs] km cs by auto
        moreover have "k \<noteq> Identifier" using ka(2) ni by auto
        ultimately have "fallbackPattern (tt_pattern k)" by (auto simp: wordToken_def)
        note kf = this kd
        from lowMatch_of_match [OF km kf(2) kf(1) w] show False using d kf(3) by simp
      qed
    qed
    then show ?thesis using f b(1) i by (simp add: matchAt_def longerAlt_def)
  qed
qed

text \<open>
  C9. A word that the scanner reaches at any offset of the input, that is an identifier
  of which the pattern of a keyword or data type matches a proper prefix, that is not
  itself reserved and behind which the input ends or goes on with a character that is no
  word character, lexes as one \<open>Identifier\<close> token with the whole word as its image and
  the offset as its start; the scan goes on behind the word. In particular so does such
  a word at the start of the input.
\<close>

theorem keyword_prefix_is_identifier:
  assumes "isIdentifier w"
    and "k \<in> set (keywordTokens @ dataTypeTokens)"
    and "matchPattern (tt_pattern k) w = Some n" and "n < length w"
    and "\<not> reservedWord w" and "wordEnds rest"
  shows "scan allTokens offset (w @ rest) =
           (\<lparr> tk_type = Identifier, tk_image = w, tk_startOffset = offset \<rparr> #
              fst (scan allTokens (offset + length w) rest),
            snd (scan allTokens (offset + length w) rest)) \<and>
         tokenize (w @ rest) =
           (\<lparr> tk_type = Identifier, tk_image = w, tk_startOffset = 0 \<rparr> #
              fst (scan allTokens (length w) rest),
            snd (scan allTokens (length w) rest))"
proof -
  obtain c cs where cs: "w = c # cs" using assms(1) by (cases w) auto
  have m: "matchAt allTokens (c # cs @ rest) = Some (Identifier, length w)"
    using keyword_prefix_matchAt [OF assms] cs by simp
  have s: "\<not> tt_skipped Identifier" by (simp add: Identifier_def)
  have "scan allTokens i (w @ rest) =
      (\<lparr> tk_type = Identifier, tk_image = w, tk_startOffset = i \<rparr> #
         fst (scan allTokens (i + length w) rest),
       snd (scan allTokens (i + length w) rest))" for i
    unfolding cs using m s cs by (simp add: case_prod_beta)
  from this [of offset] this [of 0] show ?thesis by (simp add: tokenize_def)
qed

theorem keyword_prefix_is_identifier_witness:
  "isIdentifier ''indexer'' \<and> keyword ''Index'' ''index'' \<in> set (keywordTokens @ dataTypeTokens) \<and>
   matchPattern (tt_pattern (keyword ''Index'' ''index'')) ''indexer'' = Some 5 \<and>
   \<not> reservedWord ''indexer'' \<and> wordEnds ''(x)'' \<and>
   map (\<lambda>t. (tt_name (tk_type t), tk_image t, tk_startOffset t)) (fst (tokenize ''indexer(x)'')) =
     [(''Identifier'', ''indexer'', 0), (''LParen'', ''('', 7), (''Identifier'', ''x'', 8),
      (''RParen'', '')'', 9)] \<and>
   map (\<lambda>t. (tt_name (tk_type t), tk_image t, tk_startOffset t))
     (fst (scan allTokens 6 ''indexer(x)'')) =
     [(''Identifier'', ''indexer'', 6), (''LParen'', ''('', 13), (''Identifier'', ''x'', 14),
      (''RParen'', '')'', 15)] \<and>
   tokenize ''indexer'' = ([\<lparr> tk_type = Identifier, tk_image = ''indexer'', tk_startOffset = 0 \<rparr>], [])"
proof -
  have a: "isIdentifier ''indexer''" by code_simp
  have b: "keyword ''Index'' ''index'' \<in> set (keywordTokens @ dataTypeTokens)"
    by (simp add: keywordTokens_def)
  have c: "matchPattern (tt_pattern (keyword ''Index'' ''index'')) ''indexer'' = Some 5"
    by code_simp
  have d: "\<not> reservedWord ''indexer''" by code_simp
  have e: "wordEnds ''(x)''" "wordEnds []" by code_simp+
  have r: "scan allTokens (length ''indexer'') ''(x)'' =
      ([\<lparr> tk_type = punctuation ''LParen'' ''('', tk_image = ''('', tk_startOffset = 7 \<rparr>,
        \<lparr> tk_type = Identifier, tk_image = ''x'', tk_startOffset = 8 \<rparr>,
        \<lparr> tk_type = punctuation ''RParen'' '')'', tk_image = '')'', tk_startOffset = 9 \<rparr>], [])"
    by code_simp
  have r6: "scan allTokens (6 + length ''indexer'') ''(x)'' =
      ([\<lparr> tk_type = punctuation ''LParen'' ''('', tk_image = ''('', tk_startOffset = 13 \<rparr>,
        \<lparr> tk_type = Identifier, tk_image = ''x'', tk_startOffset = 14 \<rparr>,
        \<lparr> tk_type = punctuation ''RParen'' '')'', tk_image = '')'', tk_startOffset = 15 \<rparr>], [])"
    by code_simp
  have f: "5 < length ''indexer''" by simp
  note T = keyword_prefix_is_identifier [OF a b c f d]
  have "tokenize (''indexer'' @ ''(x)'') =
      (\<lparr> tk_type = Identifier, tk_image = ''indexer'', tk_startOffset = 0 \<rparr> #
         fst (scan allTokens (length ''indexer'') ''(x)''),
       snd (scan allTokens (length ''indexer'') ''(x)''))"
    using T [OF e(1), where offset = 0] by (rule conjunct2)
  then have x: "map (\<lambda>t. (tt_name (tk_type t), tk_image t, tk_startOffset t))
        (fst (tokenize ''indexer(x)'')) =
     [(''Identifier'', ''indexer'', 0), (''LParen'', ''('', 7), (''Identifier'', ''x'', 8),
      (''RParen'', '')'', 9)]"
    unfolding r by (simp add: Identifier_def punctuation_def)
  have "scan allTokens 6 (''indexer'' @ ''(x)'') =
      (\<lparr> tk_type = Identifier, tk_image = ''indexer'', tk_startOffset = 6 \<rparr> #
         fst (scan allTokens (6 + length ''indexer'') ''(x)''),
       snd (scan allTokens (6 + length ''indexer'') ''(x)''))"
    using T [OF e(1), where offset = 6] by (rule conjunct1)
  then have z: "map (\<lambda>t. (tt_name (tk_type t), tk_image t, tk_startOffset t))
        (fst (scan allTokens 6 ''indexer(x)'')) =
     [(''Identifier'', ''indexer'', 6), (''LParen'', ''('', 13), (''Identifier'', ''x'', 14),
      (''RParen'', '')'', 15)]"
    unfolding r6 by (simp add: Identifier_def punctuation_def)
  have "tokenize (''indexer'' @ []) =
      (\<lparr> tk_type = Identifier, tk_image = ''indexer'', tk_startOffset = 0 \<rparr> #
         fst (scan allTokens (length ''indexer'') []),
       snd (scan allTokens (length ''indexer'') []))"
    using T [OF e(2), where offset = 0] by (rule conjunct2)
  then have y: "tokenize ''indexer'' =
      ([\<lparr> tk_type = Identifier, tk_image = ''indexer'', tk_startOffset = 0 \<rparr>], [])"
    by simp
  from a b c d e(1) x z y show ?thesis by blast
qed

text \<open>
  A word that is itself reserved keeps its own token, also where a shorter keyword is a
  prefix of it: \<open>function\<close> is the keyword \<open>Function\<close>, not \<open>func\<close> and a rest, and not an
  identifier.
\<close>

lemma reserved_words_keep_their_token:
  "map (\<lambda>t. (tt_name (tk_type t), tk_image t))
     (fst (tokenize ''function ondelete timestamp timestamptz jsonb TEXT null func on'')) =
   [(''Function'', ''function''), (''Ondelete'', ''ondelete''), (''Timestamp'', ''timestamp''),
    (''Timestamptz'', ''timestamptz''), (''Jsonb'', ''jsonb''), (''Text'', ''TEXT''),
    (''NullLiteral'', ''null''), (''Func'', ''func''), (''On'', ''on'')]"
  by code_simp

section \<open>Results of the compiler\<close>

text \<open>
  C3. When the source has no lexical error, the grammar reports no syntax error and the
  generation pass throws on the tree the visitor builds, \<open>compile\<close> returns a failure that
  carries this tree and exactly one error, whose message is \<open>Code generation failed: \<close>
  followed by the text of the exception.
\<close>

theorem generation_failure_reported:
  assumes "snd (tokenize source) = []"
    and "programRule lib (fst (tokenize source)) = (cst, [])"
    and "gen (visit cst) = Some (Thrown message)"
  shows "map_option fst (compile lib visit gen source inst) =
           Some \<lparr> cr_success = False, cr_sql = None,
                  cr_errors =
                    [\<lparr> ce_message = ''Code generation failed: '' @ message,
                       ce_location = None, ce_severity = SeverityError \<rparr>],
                  cr_ast = Some (visit cst) \<rparr>"
proof -
  obtain tokens where t: "tokenize source = (tokens, [])"
    using assms(1) by (cases "tokenize source") auto
  then have p: "programRule lib tokens = (cst, [])" using assms(2) by simp
  have "fst (parse lib visit source inst) = \<lparr> pr_ast = Some (visit cst), pr_errors = [] \<rparr>"
    by (simp add: parse_def t runProgram_def setInput_def p)
  then show ?thesis
    using assms(3) by (cases "parse lib visit source inst") (simp add: compile_def)
qed

theorem generation_failure_reported_witness:
  "snd (tokenize []) = [] \<and>
   programRule trivialLibrary (fst (tokenize [])) = ((), []) \<and>
   failingGeneration (emptyVisit ()) = Some (Thrown ''boom'') \<and>
   map_option fst
     (compile trivialLibrary emptyVisit failingGeneration [] \<lparr> p_input = [], p_errors = [] \<rparr>) =
     Some \<lparr> cr_success = False, cr_sql = None,
            cr_errors =
              [\<lparr> ce_message = ''Code generation failed: boom'', ce_location = None,
                 ce_severity = SeverityError \<rparr>],
            cr_ast = Some [] \<rparr>"
proof -
  have a: "snd (tokenize []) = []" by (simp add: tokenize_def)
  have b: "programRule trivialLibrary (fst (tokenize [])) = ((), [])"
    by (simp add: trivialLibrary_def)
  have c: "failingGeneration (emptyVisit ()) = Some (Thrown ''boom'')"
    by (simp add: failingGeneration_def)
  have "map_option fst
     (compile trivialLibrary emptyVisit failingGeneration [] \<lparr> p_input = [], p_errors = [] \<rparr>) =
     Some \<lparr> cr_success = False, cr_sql = None,
            cr_errors =
              [\<lparr> ce_message = ''Code generation failed: '' @ ''boom'', ce_location = None,
                 ce_severity = SeverityError \<rparr>],
            cr_ast = Some (emptyVisit ()) \<rparr>"
    using a b c
    by (rule generation_failure_reported [where source = "[]" and lib = trivialLibrary
          and cst = "()" and visit = emptyVisit and gen = failingGeneration
          and message = "''boom''"])
  then show ?thesis using a b c by (simp add: emptyVisit_def)
qed

section \<open>Termination of the compiler\<close>


lemma exhausted_stack_reported:
  assumes "snd (tokenize source) = []"
    and "programRule lib (fst (tokenize source)) = (cst, [])"
    and "generate stack (visit cst) = None"
  shows "map_option fst (compile lib visit (generation overflow stack) source inst) =
           Some \<lparr> cr_success = False, cr_sql = None,
                  cr_errors =
                    [\<lparr> ce_message = ''Code generation failed: '' @ overflow,
                       ce_location = None, ce_severity = SeverityError \<rparr>],
                  cr_ast = Some (visit cst) \<rparr>"
proof -
  obtain tokens where t: "tokenize source = (tokens, [])"
    using assms(1) by (cases "tokenize source") auto
  then have p: "programRule lib tokens = (cst, [])" using assms(2) by simp
  have "fst (parse lib visit source inst) = \<lparr> pr_ast = Some (visit cst), pr_errors = [] \<rparr>"
    by (simp add: parse_def t runProgram_def setInput_def p)
  then show ?thesis
    using assms(3)
    by (cases "parse lib visit source inst") (simp add: compile_def generation_def)
qed



end
